theory Spec2Isabelle
  imports Complex_Main
begin

section \<open>Numbers, arrays and the rendering surface\<close>

text \<open>
  The repository holds two endless-runner games that share one design: the module-level
  game of \<^verbatim>\<open>src/client/main.ts\<close> and the class \<^verbatim>\<open>EnhancedRunnerGame\<close> of
  \<^verbatim>\<open>src/client/three/game/enhanced-runner-game.ts\<close>. Both are embedded here.

  JavaScript numbers are modelled as reals: sums, products and comparisons are exact, and
  IEEE rounding is not part of the model. Counters that only ever hold whole numbers
  (lives, score, lane indices) are integers. The one non-number a coordinate can receive
  from real inputs is \<^verbatim>\<open>undefined\<close>, read from an array out of range; it behaves as NaN
  in arithmetic and comparisons. A coordinate that can receive it has type \<open>num\<close>, with
  \<open>None\<close> for \<^verbatim>\<open>undefined\<close>/NaN.
\<close>

type_synonym num = "real option"

text \<open>\<^verbatim>\<open>a - b\<close> and \<^verbatim>\<open>a < b\<close> on numbers that may be NaN: NaN propagates, and every
  comparison with NaN is false.\<close>

definition num_sub :: "num \<Rightarrow> num \<Rightarrow> num" where
  "num_sub a b = (case (a, b) of (Some u, Some v) \<Rightarrow> Some (u - v) | _ \<Rightarrow> None)"

definition num_lt :: "num \<Rightarrow> real \<Rightarrow> bool" where
  "num_lt a b = (case a of Some u \<Rightarrow> u < b | None \<Rightarrow> False)"

text \<open>\<^verbatim>\<open>arr[i]\<close>: an array read; out of range it gives \<^verbatim>\<open>undefined\<close>.\<close>

definition array_get :: "'a list \<Rightarrow> int \<Rightarrow> 'a option" where
  "array_get xs i = (if 0 \<le> i \<and> i < int (length xs) then Some (xs ! nat i) else None)"

text \<open>\<^verbatim>\<open>arr.splice(k, 1)\<close> for an index \<open>k \<ge> 0\<close>: the array without the element at
  \<open>k\<close> (unchanged when \<open>k\<close> is past the end).\<close>

definition remove_at :: "nat \<Rightarrow> 'a list \<Rightarrow> 'a list" where
  "remove_at k xs = take k xs @ drop (Suc k) xs"

text \<open>\<^verbatim>\<open>arr.splice(start, 1)\<close> for any integer start, as ECMAScript defines it: a negative
  start counts from the end, a start past the end removes nothing. The result is the pair
  of the removed elements and the array left.\<close>

definition splice1 :: "int \<Rightarrow> 'a list \<Rightarrow> 'a list \<times> 'a list" where
  "splice1 start xs =
     (let n = int (length xs);
          k = nat (if start < 0 then max (n + start) 0 else min start n)
      in (take 1 (drop k xs), remove_at k xs))"

record Vector3 =
  vec_x :: num
  vec_y :: real
  vec_z :: real

text \<open>\<^verbatim>\<open>Vector3.distanceTo\<close>: the Euclidean distance (NaN when an x coordinate is).\<close>

definition distanceTo :: "Vector3 \<Rightarrow> Vector3 \<Rightarrow> num" where
  "distanceTo a b =
     (case (vec_x a, vec_x b) of
        (Some ax, Some bx) \<Rightarrow>
          Some (sqrt ((ax - bx)\<^sup>2 + (vec_y a - vec_y b)\<^sup>2 + (vec_z a - vec_z b)\<^sup>2))
      | _ \<Rightarrow> None)"

text \<open>
  The rendering surface is an external collaborator. The model keeps what the claims
  speak of: which meshes are in the scene, and which meshes had their geometry and
  material disposed. A mesh is known by its identity, a number drawn from \<open>nextMesh\<close>.
  Particle effects, lights, rotation and materials are not modelled.
\<close>

record Surface =
  scene :: "nat list"
  disposed :: "nat list"
  nextMesh :: nat

definition scene_add :: "nat \<Rightarrow> Surface \<Rightarrow> Surface" where
  "scene_add m sf = sf\<lparr>scene := scene sf @ [m]\<rparr>"

definition scene_remove :: "nat \<Rightarrow> Surface \<Rightarrow> Surface" where
  "scene_remove m sf = sf\<lparr>scene := removeAll m (scene sf)\<rparr>"

text \<open>\<^verbatim>\<open>mesh.geometry.dispose(); mesh.material.dispose()\<close>\<close>

definition release :: "nat \<Rightarrow> Surface \<Rightarrow> Surface" where
  "release m sf = sf\<lparr>disposed := disposed sf @ [m]\<rparr>"

datatype error = TypeError

text \<open>A call either returns the state (\<open>Inr\<close>) or throws (\<open>Inl\<close>); the mutations made
  before a throw persist, so the error comes with the state at the throw.\<close>

type_synonym 's result = "(error \<times> 's) + 's"

definition state_of :: "'s result \<Rightarrow> 's" where
  "state_of r = (case r of Inl (e, s) \<Rightarrow> s | Inr s \<Rightarrow> s)"


section \<open>Game objects\<close>

record GameObject =
  mesh :: nat
  position :: Vector3

record Player = GameObject +
  velocity :: Vector3
  currentLane :: int
  targetX :: num
  isGrounded :: bool

text \<open>\<^verbatim>\<open>Obstacle\<close> and \<^verbatim>\<open>Collectible\<close> of main.ts (velocity is a number along z), and
  \<^verbatim>\<open>DiwaliObstacle\<close> (only \<^verbatim>\<open>velocity.z\<close> is ever set or read).\<close>

record Entity = GameObject +
  velocity_z :: real

datatype PickupType = Coin | Diya | Phooljhadi | Rangoli

record DiwaliCollectible = Entity +
  pickup_type :: "PickupType option"

record GameStateBase =
  isPlaying :: bool
  isPaused :: bool
  score :: int
  speed :: real
  lives :: int
  gameOver :: bool

record GameState = GameStateBase +
  theme :: string

text \<open>The lane table \<^verbatim>\<open>[-2, 0, 2]\<close>, a field of both players that is never written, and the
  literal of the entity constructors.\<close>

definition lanes :: "real list" where
  "lanes = [-2, 0, 2]"

definition lane_x :: "int option \<Rightarrow> num" where
  "lane_x lane = (case lane of None \<Rightarrow> None | Some l \<Rightarrow> array_get lanes l)"

subsection \<open>Player (main.ts) and EnhancedPlayer\<close>

definition new_Player :: "nat \<Rightarrow> Player" where
  "new_Player m =
     \<lparr>mesh = m, position = \<lparr>vec_x = Some 0, vec_y = 0.6, vec_z = 0\<rparr>,
      velocity = \<lparr>vec_x = Some 0, vec_y = 0, vec_z = 0\<rparr>,
      currentLane = 1, targetX = Some 0, isGrounded = True\<rparr>"

definition new_EnhancedPlayer :: "nat \<Rightarrow> Player" where
  "new_EnhancedPlayer m =
     \<lparr>mesh = m, position = \<lparr>vec_x = Some 0, vec_y = 1, vec_z = 0\<rparr>,
      velocity = \<lparr>vec_x = Some 0, vec_y = 0, vec_z = 0\<rparr>,
      currentLane = 1, targetX = Some 0, isGrounded = True\<rparr>"

text \<open>The private constants of \<^verbatim>\<open>EnhancedPlayer\<close>; main.ts writes the same numbers as
  literals.\<close>

definition jumpForce :: real where "jumpForce = 15"
definition gravity :: real where "gravity = -50"
definition groundY :: real where "groundY = 0"
definition moveSpeed :: real where "moveSpeed = 8"

definition jump :: "Player \<Rightarrow> Player" where
  "jump p =
     (if isGrounded p
      then p\<lparr>velocity := (velocity p)\<lparr>vec_y := 15\<rparr>, isGrounded := False\<rparr>
      else p)"

definition moveLeft :: "Player \<Rightarrow> Player" where
  "moveLeft p =
     (if currentLane p > 0
      then (let p1 = p\<lparr>currentLane := currentLane p - 1\<rparr>
            in p1\<lparr>targetX := array_get lanes (currentLane p1)\<rparr>)
      else p)"

definition moveRight :: "Player \<Rightarrow> Player" where
  "moveRight p =
     (if currentLane p < int (length lanes) - 1
      then (let p1 = p\<lparr>currentLane := currentLane p + 1\<rparr>
            in p1\<lparr>targetX := array_get lanes (currentLane p1)\<rparr>)
      else p)"

text \<open>The jump of \<^verbatim>\<open>EnhancedPlayer\<close> (its sparkle effect is drawing only); its
  \<^verbatim>\<open>moveLeft\<close> and \<^verbatim>\<open>moveRight\<close> are those of main.ts, word for word.\<close>

definition jump_enh :: "Player \<Rightarrow> Player" where
  "jump_enh p =
     (if isGrounded p
      then p\<lparr>velocity := (velocity p)\<lparr>vec_y := jumpForce\<rparr>, isGrounded := False\<rparr>
      else p)"

definition moveLeft_enh :: "Player \<Rightarrow> Player" where
  "moveLeft_enh p =
     (if currentLane p > 0
      then (let p1 = p\<lparr>currentLane := currentLane p - 1\<rparr>
            in p1\<lparr>targetX := array_get lanes (currentLane p1)\<rparr>)
      else p)"

definition moveRight_enh :: "Player \<Rightarrow> Player" where
  "moveRight_enh p =
     (if currentLane p < int (length lanes) - 1
      then (let p1 = p\<lparr>currentLane := currentLane p + 1\<rparr>
            in p1\<lparr>targetX := array_get lanes (currentLane p1)\<rparr>)
      else p)"

text \<open>Gravity and landing, the second half of both \<^verbatim>\<open>update\<close> methods.\<close>

definition fall :: "real \<Rightarrow> real \<Rightarrow> real \<Rightarrow> Player \<Rightarrow> Player" where
  "fall g ground deltaTime p =
     (if \<not> isGrounded p then
        (let vy = vec_y (velocity p) + g * deltaTime;
             y = vec_y (position p) + vy * deltaTime
         in if y \<le> ground
            then p\<lparr>position := (position p)\<lparr>vec_y := ground\<rparr>,
                   velocity := (velocity p)\<lparr>vec_y := 0\<rparr>, isGrounded := True\<rparr>
            else p\<lparr>position := (position p)\<lparr>vec_y := y\<rparr>,
                   velocity := (velocity p)\<lparr>vec_y := vy\<rparr>\<rparr>)
      else p)"

text \<open>\<^verbatim>\<open>Player.update\<close> of main.ts: with a NaN distance the test \<^verbatim>\<open>Math.abs(dx) > 0.1\<close> is
  false and x stays.\<close>

definition Player_update :: "real \<Rightarrow> Player \<Rightarrow> Player" where
  "Player_update deltaTime p =
     (let p1 =
        (case (num_sub (targetX p) (vec_x (position p)), vec_x (position p)) of
           (Some dx, Some x) \<Rightarrow>
             if \<bar>dx\<bar> > 0.1
             then p\<lparr>position := (position p)\<lparr>vec_x := Some (x + dx * 8 * deltaTime)\<rparr>\<rparr>
             else p
         | _ \<Rightarrow> p)
      in fall (-50) 0.6 deltaTime p1)"

text \<open>\<^verbatim>\<open>EnhancedPlayer.update\<close>: the else branch snaps x to the target, also when the
  distance is NaN.\<close>

definition EnhancedPlayer_update :: "real \<Rightarrow> Player \<Rightarrow> Player" where
  "EnhancedPlayer_update deltaTime p =
     (let p1 =
        (case (num_sub (targetX p) (vec_x (position p)), vec_x (position p)) of
           (Some dx, Some x) \<Rightarrow>
             if \<bar>dx\<bar> > 0.1
             then p\<lparr>position := (position p)\<lparr>vec_x := Some (x + dx * moveSpeed * deltaTime)\<rparr>\<rparr>
             else p\<lparr>position := (position p)\<lparr>vec_x := targetX p\<rparr>\<rparr>
         | _ \<Rightarrow> p\<lparr>position := (position p)\<lparr>vec_x := targetX p\<rparr>\<rparr>)
      in fall gravity (groundY + 0.6) deltaTime p1)"

subsection \<open>The input commands\<close>

datatype command = Jump | MoveLeft | MoveRight

fun command_main :: "command \<Rightarrow> Player \<Rightarrow> Player" where
  "command_main Jump p = jump p"
| "command_main MoveLeft p = moveLeft p"
| "command_main MoveRight p = moveRight p"

fun command_enh :: "command \<Rightarrow> Player \<Rightarrow> Player" where
  "command_enh Jump p = jump_enh p"
| "command_enh MoveLeft p = moveLeft_enh p"
| "command_enh MoveRight p = moveRight_enh p"

text \<open>A sequence of commands, applied in order.\<close>

definition commands_main :: "command list \<Rightarrow> Player \<Rightarrow> Player" where
  "commands_main cs p = foldl (\<lambda>q c. command_main c q) p cs"

definition commands_enh :: "command list \<Rightarrow> Player \<Rightarrow> Player" where
  "commands_enh cs p = foldl (\<lambda>q c. command_enh c q) p cs"

section \<open>The game of main.ts\<close>

text \<open>\<^verbatim>\<open>HealthBar\<close> (health-bar): the hearts shown to the player. \<^verbatim>\<open>setHealth\<close> clamps the
  value into \<open>[0, maxHealth]\<close>; its DOM rendering is not modelled.\<close>

record HealthBar =
  maxHealth :: int
  currentHealth :: int
  shown :: bool

definition setHealth :: "int \<Rightarrow> HealthBar \<Rightarrow> HealthBar" where
  "setHealth health hb = hb\<lparr>currentHealth := max 0 (min health (maxHealth hb))\<rparr>"

definition takeDamage :: "int \<Rightarrow> HealthBar \<Rightarrow> HealthBar" where
  "takeDamage amount hb = setHealth (currentHealth hb - amount) hb"

text \<open>The module-level variables of main.ts. The DOM elements (screens, score text) are
  read through null checks only and are left out.\<close>

record World =
  gameState :: GameStateBase
  player :: Player
  obstacles :: "Entity list"
  collectibles :: "Entity list"
  healthBar :: HealthBar
  spawnTimer :: real
  lastTime :: real
  surface :: Surface

definition spawnInterval :: real where
  "spawnInterval = 2.5"

text \<open>The state \<^verbatim>\<open>init\<close> leaves behind: the literal \<^verbatim>\<open>gameState\<close>, a hidden health bar, a
  new player (mesh 0, in the scene), no entities.\<close>

definition init_World :: World where
  "init_World =
     \<lparr>gameState = \<lparr>isPlaying = False, isPaused = False, score = 0, speed = 10, lives = 3,
                   gameOver = False\<rparr>,
      player = new_Player 0,
      obstacles = [], collectibles = [],
      healthBar = \<lparr>maxHealth = 3, currentHealth = 3, shown = False\<rparr>,
      spawnTimer = 0, lastTime = 0,
      surface = \<lparr>scene = [0], disposed = [], nextMesh = 1\<rparr>\<rparr>"

text \<open>\<^verbatim>\<open>new Obstacle(lane, z)\<close> and \<^verbatim>\<open>new Collectible(lane, z)\<close>: a fresh mesh at the lane's
  x, moving at the speed the game has now, added to the scene.\<close>

definition new_Obstacle :: "int option \<Rightarrow> real \<Rightarrow> World \<Rightarrow> Entity \<times> World" where
  "new_Obstacle lane z w =
     (let m = nextMesh (surface w)
      in (\<lparr>mesh = m, position = \<lparr>vec_x = lane_x lane, vec_y = 0.75, vec_z = z\<rparr>,
           velocity_z = speed (gameState w)\<rparr>,
          w\<lparr>surface := scene_add m ((surface w)\<lparr>nextMesh := Suc m\<rparr>)\<rparr>))"

definition new_Collectible :: "int option \<Rightarrow> real \<Rightarrow> World \<Rightarrow> Entity \<times> World" where
  "new_Collectible lane z w =
     (let m = nextMesh (surface w)
      in (\<lparr>mesh = m, position = \<lparr>vec_x = lane_x lane, vec_y = 1, vec_z = z\<rparr>,
           velocity_z = speed (gameState w)\<rparr>,
          w\<lparr>surface := scene_add m ((surface w)\<lparr>nextMesh := Suc m\<rparr>)\<rparr>))"

text \<open>\<^verbatim>\<open>update\<close> of both entity classes (the rotation is drawing only).\<close>

definition Entity_update :: "real \<Rightarrow> Entity \<Rightarrow> Entity" where
  "Entity_update deltaTime e =
     e\<lparr>position := (position e)\<lparr>vec_z := vec_z (position e) + velocity_z e * deltaTime\<rparr>\<rparr>"

text \<open>\<^verbatim>\<open>dispose\<close> of both entity classes: out of the scene, geometry and material freed.\<close>

definition Entity_dispose :: "Entity \<Rightarrow> Surface \<Rightarrow> Surface" where
  "Entity_dispose e sf = release (mesh e) (scene_remove (mesh e) sf)"

definition startGame :: "World \<Rightarrow> World" where
  "startGame w =
     (let w1 = w\<lparr>gameState := (gameState w)\<lparr>isPlaying := True, gameOver := False, score := 0,
                                            lives := 3, speed := 10\<rparr>,
                 spawnTimer := 0\<rparr>;
          w2 = w1\<lparr>surface := foldl (\<lambda>sf obs. Entity_dispose obs sf) (surface w1) (obstacles w1)\<rparr>;
          w3 = w2\<lparr>surface := foldl (\<lambda>sf col. Entity_dispose col sf) (surface w2) (collectibles w2)\<rparr>;
          w4 = w3\<lparr>obstacles := [], collectibles := []\<rparr>
      in w4\<lparr>healthBar := (setHealth (lives (gameState w4)) (healthBar w4))\<lparr>shown := True\<rparr>\<rparr>)"

text \<open>The function \<^verbatim>\<open>gameOver()\<close>.\<close>

definition gameOver_fn :: "World \<Rightarrow> World" where
  "gameOver_fn w =
     w\<lparr>gameState := (gameState w)\<lparr>gameOver := True, isPlaying := False\<rparr>,
       healthBar := (healthBar w)\<lparr>shown := False\<rparr>\<rparr>"

text \<open>
  \<^verbatim>\<open>Math.random()\<close> is an oracle: \<open>rnd k\<close> is the value of the \<open>k\<close>-th call made during
  one frame. \<^verbatim>\<open>spawnObjects\<close> is the first code of a frame that draws.

  The loop of \<^verbatim>\<open>availableLanes.forEach\<close>: one draw for each lane left.
\<close>

fun spawn_collectibles :: "(nat \<Rightarrow> real) \<Rightarrow> nat \<Rightarrow> int list \<Rightarrow> World \<Rightarrow> World" where
  "spawn_collectibles rnd k [] w = w"
| "spawn_collectibles rnd k (lane # ls) w =
     spawn_collectibles rnd (Suc k) ls
       (if rnd k < 0.6
        then (let (col, w1) = new_Collectible (Some lane) (-50) w
              in w1\<lparr>collectibles := collectibles w1 @ [col]\<rparr>)
        else w)"

definition spawnObjects :: "(nat \<Rightarrow> real) \<Rightarrow> World \<Rightarrow> World" where
  "spawnObjects rnd w =
     (let availableLanes = [0, 1, 2] in
      if rnd 0 < 0.7 then
        (let (removed, rest) =
               splice1 \<lfloor>rnd 1 * real (length availableLanes)\<rfloor> availableLanes;
             (obs, w1) = new_Obstacle (array_get removed 0) (-50) w
         in spawn_collectibles rnd 2 rest (w1\<lparr>obstacles := obstacles w1 @ [obs]\<rparr>))
      else spawn_collectibles rnd 1 availableLanes w)"

text \<open>
  The obstacle loop of \<^verbatim>\<open>checkCollisions\<close>, \<^verbatim>\<open>for (i = length - 1; i >= 0; i--)\<close>: the
  first argument is \<open>i + 1\<close>. The flag of the result says that the function returned from
  inside the loop. Reading \<^verbatim>\<open>.mesh\<close> of an \<^verbatim>\<open>undefined\<close> element throws.
\<close>

fun check_obstacles :: "nat \<Rightarrow> World \<Rightarrow> (error \<times> World) + (bool \<times> World)" where
  "check_obstacles 0 w = Inr (False, w)"
| "check_obstacles (Suc i) w =
     (case array_get (obstacles w) (int i) of
        None \<Rightarrow> Inl (TypeError, w)
      | Some obstacle \<Rightarrow>
          if num_lt (distanceTo (position (player w)) (position obstacle)) 1.0 then
            (let w1 = w\<lparr>gameState := (gameState w)\<lparr>lives := lives (gameState w) - 1\<rparr>\<rparr>;
                 w2 = w1\<lparr>healthBar := takeDamage 1 (healthBar w1)\<rparr>;
                 w3 = w2\<lparr>surface := Entity_dispose obstacle (surface w2)\<rparr>;
                 w4 = w3\<lparr>obstacles := remove_at i (obstacles w3)\<rparr>
             in if lives (gameState w4) \<le> 0 then Inr (True, gameOver_fn w4)
                else check_obstacles i w4)
          else check_obstacles i w)"

fun check_collectibles :: "nat \<Rightarrow> World \<Rightarrow> World result" where
  "check_collectibles 0 w = Inr w"
| "check_collectibles (Suc i) w =
     (case array_get (collectibles w) (int i) of
        None \<Rightarrow> Inl (TypeError, w)
      | Some collectible \<Rightarrow>
          if num_lt (distanceTo (position (player w)) (position collectible)) 0.8 then
            (let w1 = w\<lparr>gameState := (gameState w)\<lparr>score := score (gameState w) + 10\<rparr>\<rparr>;
                 w2 = w1\<lparr>surface := Entity_dispose collectible (surface w1)\<rparr>
             in check_collectibles i (w2\<lparr>collectibles := remove_at i (collectibles w2)\<rparr>))
          else check_collectibles i w)"

definition checkCollisions :: "World \<Rightarrow> World result" where
  "checkCollisions w =
     (case check_obstacles (length (obstacles w)) w of
        Inl e \<Rightarrow> Inl e
      | Inr (True, w1) \<Rightarrow> Inr w1
      | Inr (False, w1) \<Rightarrow> check_collectibles (length (collectibles w1)) w1)"

text \<open>
  \<^verbatim>\<open>obstacles.forEach((obstacle, index) => ...)\<close> of \<^verbatim>\<open>animate\<close>, with the
  \<^verbatim>\<open>splice(index, 1)\<close> in its callback. \<^verbatim>\<open>forEach\<close> visits the indices \<open>0, 1, 2, ...\<close> in
  turn and calls back for each index that is still in the array when its turn comes; the
  second argument is the index.
\<close>

function update_obstacles :: "real \<Rightarrow> nat \<Rightarrow> World \<Rightarrow> World" where
  "update_obstacles deltaTime index w =
     (if index < length (obstacles w) then
        (let obstacle = Entity_update deltaTime (obstacles w ! index);
             w1 = w\<lparr>obstacles := (obstacles w)[index := obstacle]\<rparr>
         in if vec_z (position obstacle) > 10
            then update_obstacles deltaTime (Suc index)
                   (w1\<lparr>surface := Entity_dispose obstacle (surface w1),
                       obstacles := remove_at index (obstacles w1)\<rparr>)
            else update_obstacles deltaTime (Suc index) w1)
      else w)"
  by pat_completeness auto
termination
  by (relation "measure (\<lambda>(deltaTime, index, w). length (obstacles w) - index)")
     (auto simp: remove_at_def)

function update_collectibles :: "real \<Rightarrow> nat \<Rightarrow> World \<Rightarrow> World" where
  "update_collectibles deltaTime index w =
     (if index < length (collectibles w) then
        (let collectible = Entity_update deltaTime (collectibles w ! index);
             w1 = w\<lparr>collectibles := (collectibles w)[index := collectible]\<rparr>
         in if vec_z (position collectible) > 10
            then update_collectibles deltaTime (Suc index)
                   (w1\<lparr>surface := Entity_dispose collectible (surface w1),
                       collectibles := remove_at index (collectibles w1)\<rparr>)
            else update_collectibles deltaTime (Suc index) w1)
      else w)"
  by pat_completeness auto
termination
  by (relation "measure (\<lambda>(deltaTime, index, w). length (collectibles w) - index)")
     (auto simp: remove_at_def)

text \<open>The spawn step of \<^verbatim>\<open>animate\<close> (the lines under \<^verbatim>\<open>// Spawn objects\<close>).\<close>

definition spawn_step :: "real \<Rightarrow> (nat \<Rightarrow> real) \<Rightarrow> World \<Rightarrow> World" where
  "spawn_step deltaTime rnd w =
     (let w1 = w\<lparr>spawnTimer := spawnTimer w + deltaTime\<rparr>
      in if spawnTimer w1 \<ge> spawnInterval then
           (let w2 = spawnObjects rnd w1;
                w3 = w2\<lparr>spawnTimer := 0\<rparr>
            in w3\<lparr>gameState := (gameState w3)\<lparr>speed := speed (gameState w3) + 0.1\<rparr>\<rparr>)
         else w1)"

text \<open>The body of \<^verbatim>\<open>animate\<close> under \<^verbatim>\<open>if (gameState.isPlaying && !gameState.gameOver)\<close>.\<close>

definition frame :: "real \<Rightarrow> (nat \<Rightarrow> real) \<Rightarrow> World \<Rightarrow> World result" where
  "frame deltaTime rnd w =
     (let w1 = w\<lparr>player := Player_update deltaTime (player w)\<rparr>;
          w2 = update_obstacles deltaTime 0 w1;
          w3 = update_collectibles deltaTime 0 w2;
          w4 = spawn_step deltaTime rnd w3
      in case checkCollisions w4 of
           Inl e \<Rightarrow> Inl e
         | Inr w5 \<Rightarrow>
             Inr (w5\<lparr>gameState :=
                      (gameState w5)\<lparr>score := score (gameState w5) + \<lfloor>deltaTime * 5\<rfloor>\<rparr>\<rparr>))"

text \<open>\<^verbatim>\<open>animate(currentTime)\<close>; rescheduling and rendering are the host's.\<close>

definition animate :: "real \<Rightarrow> (nat \<Rightarrow> real) \<Rightarrow> World \<Rightarrow> World result" where
  "animate currentTime rnd w =
     (let deltaTime = (currentTime - lastTime w) / 1000;
          w1 = w\<lparr>lastTime := currentTime\<rparr>
      in if isPlaying (gameState w1) \<and> \<not> gameOver (gameState w1)
         then frame deltaTime rnd w1
         else Inr w1)"

section \<open>The game of enhanced-runner-game.ts\<close>

text \<open>The fields of \<^verbatim>\<open>EnhancedRunnerGame\<close> (asset loader, profile manager and ground are
  drawing only).\<close>

record EnhancedRunnerGame =
  e_surface :: Surface
  e_player :: Player
  e_obstacles :: "Entity list"
  e_collectibles :: "DiwaliCollectible list"
  e_gameState :: GameState
  e_spawnTimer :: real
  e_spawnInterval :: real

text \<open>The state the field initialisers and the constructor describe: the player is mesh 0,
  in the scene.\<close>

definition new_EnhancedRunnerGame :: EnhancedRunnerGame where
  "new_EnhancedRunnerGame =
     \<lparr>e_surface = \<lparr>scene = [0], disposed = [], nextMesh = 1\<rparr>,
      e_player = new_EnhancedPlayer 0,
      e_obstacles = [], e_collectibles = [],
      e_gameState = \<lparr>isPlaying = False, isPaused = False, score = 0, speed = 10, lives = 3,
                     gameOver = False, theme = ''diwali-night''\<rparr>,
      e_spawnTimer = 0, e_spawnInterval = 2\<rparr>"

text \<open>\<^verbatim>\<open>new DiwaliObstacle(lane, z, assetLoader)\<close>: at rest until the caller sets
  \<^verbatim>\<open>velocity.z\<close>, and not yet in the scene.\<close>

definition new_DiwaliObstacle :: "int option \<Rightarrow> real \<Rightarrow> EnhancedRunnerGame \<Rightarrow> Entity \<times> EnhancedRunnerGame" where
  "new_DiwaliObstacle lane z g =
     (let m = nextMesh (e_surface g)
      in (\<lparr>mesh = m, position = \<lparr>vec_x = lane_x lane, vec_y = 0.75, vec_z = z\<rparr>,
           velocity_z = 0\<rparr>,
          g\<lparr>e_surface := (e_surface g)\<lparr>nextMesh := Suc m\<rparr>\<rparr>))"

text \<open>\<^verbatim>\<open>types[Math.floor(Math.random() * types.length)]\<close> for the draw \<open>r\<close>.\<close>

definition types :: "PickupType list" where
  "types = [Coin, Diya, Phooljhadi, Rangoli]"

definition pick_type :: "real \<Rightarrow> PickupType option" where
  "pick_type r = array_get types \<lfloor>r * real (length types)\<rfloor>"

text \<open>\<^verbatim>\<open>new DiwaliCollectible(lane, z, assetLoader, type)\<close>: when the type given is
  \<^verbatim>\<open>undefined\<close> the constructor draws one itself (draw \<open>k\<close>); the result carries the index
  of the next draw.\<close>

definition new_DiwaliCollectible ::
  "(nat \<Rightarrow> real) \<Rightarrow> nat \<Rightarrow> int option \<Rightarrow> real \<Rightarrow> PickupType option \<Rightarrow> EnhancedRunnerGame
     \<Rightarrow> DiwaliCollectible \<times> nat \<times> EnhancedRunnerGame" where
  "new_DiwaliCollectible rnd k lane z ty g =
     (let m = nextMesh (e_surface g);
          (ty1, k1) = (case ty of Some t \<Rightarrow> (Some t, k) | None \<Rightarrow> (pick_type (rnd k), Suc k))
      in (\<lparr>mesh = m, position = \<lparr>vec_x = lane_x lane, vec_y = 1, vec_z = z\<rparr>,
           velocity_z = 0, pickup_type = ty1\<rparr>,
          k1,
          g\<lparr>e_surface := (e_surface g)\<lparr>nextMesh := Suc m\<rparr>\<rparr>))"

definition DiwaliObstacle_update :: "real \<Rightarrow> Entity \<Rightarrow> Entity" where
  "DiwaliObstacle_update deltaTime e =
     e\<lparr>position := (position e)\<lparr>vec_z := vec_z (position e) + velocity_z e * deltaTime\<rparr>\<rparr>"

text \<open>\<^verbatim>\<open>DiwaliCollectible.update\<close>: \<open>now\<close> is what \<^verbatim>\<open>Date.now()\<close> returns in this call; the
  height floats around 1.\<close>

definition DiwaliCollectible_update :: "real \<Rightarrow> real \<Rightarrow> DiwaliCollectible \<Rightarrow> DiwaliCollectible" where
  "DiwaliCollectible_update now deltaTime c =
     (let z = vec_z (position c) + velocity_z c * deltaTime
      in c\<lparr>position := (position c)\<lparr>vec_z := z, vec_y := 1 + sin (now * 0.005 + z) * 0.2\<rparr>\<rparr>)"

definition getValue :: "DiwaliCollectible \<Rightarrow> int" where
  "getValue c =
     (case pickup_type c of
        Some Coin \<Rightarrow> 10 | Some Diya \<Rightarrow> 25 | Some Phooljhadi \<Rightarrow> 15 | Some Rangoli \<Rightarrow> 30
      | None \<Rightarrow> 10)"

definition clearGameObjects :: "EnhancedRunnerGame \<Rightarrow> EnhancedRunnerGame" where
  "clearGameObjects g =
     (let g1 = g\<lparr>e_surface :=
                  foldl (\<lambda>sf obstacle. release (mesh obstacle) (scene_remove (mesh obstacle) sf))
                    (e_surface g) (e_obstacles g)\<rparr>;
          g2 = g1\<lparr>e_obstacles := []\<rparr>;
          g3 = g2\<lparr>e_surface :=
                   foldl (\<lambda>sf collectible.
                            release (mesh collectible) (scene_remove (mesh collectible) sf))
                     (e_surface g2) (e_collectibles g2)\<rparr>
      in g3\<lparr>e_collectibles := []\<rparr>)"

definition startGame_enh :: "EnhancedRunnerGame \<Rightarrow> EnhancedRunnerGame" where
  "startGame_enh g =
     clearGameObjects
       (g\<lparr>e_gameState := (e_gameState g)\<lparr>isPlaying := True, isPaused := False,
                                         gameOver := False, score := 0, speed := 10,
                                         lives := 3\<rparr>,
          e_spawnTimer := 0\<rparr>)"

definition pauseGame :: "EnhancedRunnerGame \<Rightarrow> EnhancedRunnerGame" where
  "pauseGame g = g\<lparr>e_gameState := (e_gameState g)\<lparr>isPaused := \<not> isPaused (e_gameState g)\<rparr>\<rparr>"

definition stopGame :: "EnhancedRunnerGame \<Rightarrow> EnhancedRunnerGame" where
  "stopGame g =
     clearGameObjects (g\<lparr>e_gameState := (e_gameState g)\<lparr>isPlaying := False, gameOver := True\<rparr>\<rparr>)"

text \<open>
  The obstacle loop of \<^verbatim>\<open>spawnObjects\<close>,
  \<^verbatim>\<open>for (i = 0; i < obstacleCount && availableLanes.length > 0; i++)\<close>: the third argument
  is \<open>obstacleCount - i\<close>, the second the index of the next draw. The result carries the
  next draw and the lanes left.
\<close>

fun spawn_obstacles_enh ::
  "(nat \<Rightarrow> real) \<Rightarrow> nat \<Rightarrow> nat \<Rightarrow> int list \<Rightarrow> EnhancedRunnerGame
     \<Rightarrow> nat \<times> int list \<times> EnhancedRunnerGame" where
  "spawn_obstacles_enh rnd k 0 availableLanes g = (k, availableLanes, g)"
| "spawn_obstacles_enh rnd k (Suc n) availableLanes g =
     (if length availableLanes > 0 then
        (let laneIndex = \<lfloor>rnd k * real (length availableLanes)\<rfloor>;
             (removed, rest) = splice1 laneIndex availableLanes;
             (obstacle, g1) = new_DiwaliObstacle (array_get removed 0) (-50) g;
             obstacle1 = obstacle\<lparr>velocity_z := speed (e_gameState g1)\<rparr>;
             g2 = g1\<lparr>e_obstacles := e_obstacles g1 @ [obstacle1]\<rparr>
         in spawn_obstacles_enh rnd (Suc k) n rest
              (g2\<lparr>e_surface := scene_add (mesh obstacle1) (e_surface g2)\<rparr>))
      else (k, availableLanes, g))"

fun spawn_collectibles_enh ::
  "(nat \<Rightarrow> real) \<Rightarrow> nat \<Rightarrow> int list \<Rightarrow> EnhancedRunnerGame \<Rightarrow> EnhancedRunnerGame" where
  "spawn_collectibles_enh rnd k [] g = g"
| "spawn_collectibles_enh rnd k (lane # ls) g =
     (if rnd k < 0.7 then
        (let ty = pick_type (rnd (Suc k));
             (collectible, k1, g1) =
               new_DiwaliCollectible rnd (Suc (Suc k)) (Some lane) (-50) ty g;
             collectible1 = collectible\<lparr>velocity_z := speed (e_gameState g1)\<rparr>;
             g2 = g1\<lparr>e_collectibles := e_collectibles g1 @ [collectible1]\<rparr>
         in spawn_collectibles_enh rnd k1 ls
              (g2\<lparr>e_surface := scene_add (mesh collectible1) (e_surface g2)\<rparr>))
      else spawn_collectibles_enh rnd (Suc k) ls g)"

definition spawnObjects_enh :: "(nat \<Rightarrow> real) \<Rightarrow> EnhancedRunnerGame \<Rightarrow> EnhancedRunnerGame" where
  "spawnObjects_enh rnd g =
     (let availableLanes = [0, 1, 2];
          obstacleCount = (if rnd 0 < 0.6 then 1 else 2);
          (k, rest, g1) = spawn_obstacles_enh rnd 1 obstacleCount availableLanes g
      in spawn_collectibles_enh rnd k rest g1)"

text \<open>
  The obstacle loop of the enhanced \<^verbatim>\<open>checkCollisions\<close>; the first argument is \<open>i + 1\<close>.
  \<^verbatim>\<open>this.obstacles[i]!\<close> is a plain array read (the \<^verbatim>\<open>!\<close> is erased by the compiler), and
  \<^verbatim>\<open>obstacle.mesh\<close> on \<^verbatim>\<open>undefined\<close> throws. After \<^verbatim>\<open>stopGame()\<close> the loop goes on.
\<close>

fun check_obstacles_enh :: "nat \<Rightarrow> EnhancedRunnerGame \<Rightarrow> EnhancedRunnerGame result" where
  "check_obstacles_enh 0 g = Inr g"
| "check_obstacles_enh (Suc i) g =
     (case array_get (e_obstacles g) (int i) of
        None \<Rightarrow> Inl (TypeError, g)
      | Some obstacle \<Rightarrow>
          if num_lt (distanceTo (position (e_player g)) (position obstacle)) 1 then
            (let g1 = g\<lparr>e_gameState := (e_gameState g)\<lparr>lives := lives (e_gameState g) - 1\<rparr>\<rparr>;
                 g2 = g1\<lparr>e_surface := release (mesh obstacle)
                                         (scene_remove (mesh obstacle) (e_surface g1))\<rparr>;
                 g3 = g2\<lparr>e_obstacles := remove_at i (e_obstacles g2)\<rparr>;
                 g4 = (if lives (e_gameState g3) \<le> 0 then stopGame g3 else g3)
             in check_obstacles_enh i g4)
          else check_obstacles_enh i g)"

fun check_collectibles_enh :: "nat \<Rightarrow> EnhancedRunnerGame \<Rightarrow> EnhancedRunnerGame result" where
  "check_collectibles_enh 0 g = Inr g"
| "check_collectibles_enh (Suc i) g =
     (case array_get (e_collectibles g) (int i) of
        None \<Rightarrow> Inl (TypeError, g)
      | Some collectible \<Rightarrow>
          if num_lt (distanceTo (position (e_player g)) (position collectible)) 0.8 then
            (let value = getValue collectible;
                 g1 = g\<lparr>e_gameState := (e_gameState g)\<lparr>score := score (e_gameState g) + value\<rparr>\<rparr>;
                 g2 = g1\<lparr>e_surface := release (mesh collectible)
                                         (scene_remove (mesh collectible) (e_surface g1))\<rparr>
             in check_collectibles_enh i (g2\<lparr>e_collectibles := remove_at i (e_collectibles g2)\<rparr>))
          else check_collectibles_enh i g)"

definition checkCollisions_enh :: "EnhancedRunnerGame \<Rightarrow> EnhancedRunnerGame result" where
  "checkCollisions_enh g =
     (case check_obstacles_enh (length (e_obstacles g)) g of
        Inl e \<Rightarrow> Inl e
      | Inr g1 \<Rightarrow> check_collectibles_enh (length (e_collectibles g1)) g1)"

text \<open>The two culling loops of \<^verbatim>\<open>update\<close>, backwards over the indices; the first argument
  is \<open>i + 1\<close>. \<open>now i\<close> is what \<^verbatim>\<open>Date.now()\<close> returns while the collectible at index \<open>i\<close>
  is updated.\<close>

fun cull_obstacles :: "real \<Rightarrow> nat \<Rightarrow> EnhancedRunnerGame \<Rightarrow> EnhancedRunnerGame result" where
  "cull_obstacles deltaTime 0 g = Inr g"
| "cull_obstacles deltaTime (Suc i) g =
     (case array_get (e_obstacles g) (int i) of
        None \<Rightarrow> Inl (TypeError, g)
      | Some obstacle0 \<Rightarrow>
          (let obstacle = DiwaliObstacle_update deltaTime obstacle0;
               g1 = g\<lparr>e_obstacles := (e_obstacles g)[i := obstacle]\<rparr>
           in if vec_z (position obstacle) > 10
              then cull_obstacles deltaTime i
                     (g1\<lparr>e_surface := release (mesh obstacle)
                                         (scene_remove (mesh obstacle) (e_surface g1)),
                         e_obstacles := remove_at i (e_obstacles g1)\<rparr>)
              else cull_obstacles deltaTime i g1))"

fun cull_collectibles ::
  "(nat \<Rightarrow> real) \<Rightarrow> real \<Rightarrow> nat \<Rightarrow> EnhancedRunnerGame \<Rightarrow> EnhancedRunnerGame result" where
  "cull_collectibles now deltaTime 0 g = Inr g"
| "cull_collectibles now deltaTime (Suc i) g =
     (case array_get (e_collectibles g) (int i) of
        None \<Rightarrow> Inl (TypeError, g)
      | Some collectible0 \<Rightarrow>
          (let collectible = DiwaliCollectible_update (now i) deltaTime collectible0;
               g1 = g\<lparr>e_collectibles := (e_collectibles g)[i := collectible]\<rparr>
           in if vec_z (position collectible) > 10
              then cull_collectibles now deltaTime i
                     (g1\<lparr>e_surface := release (mesh collectible)
                                         (scene_remove (mesh collectible) (e_surface g1)),
                         e_collectibles := remove_at i (e_collectibles g1)\<rparr>)
              else cull_collectibles now deltaTime i g1))"

text \<open>The spawn step of \<^verbatim>\<open>update\<close> (the lines under \<^verbatim>\<open>// Spawn new objects\<close>).\<close>

definition spawn_step_enh :: "real \<Rightarrow> (nat \<Rightarrow> real) \<Rightarrow> EnhancedRunnerGame \<Rightarrow> EnhancedRunnerGame" where
  "spawn_step_enh deltaTime rnd g =
     (let g1 = g\<lparr>e_spawnTimer := e_spawnTimer g + deltaTime\<rparr>
      in if e_spawnTimer g1 \<ge> e_spawnInterval g1 then
           (let g2 = spawnObjects_enh rnd g1;
                g3 = g2\<lparr>e_spawnTimer := 0\<rparr>;
                g4 = g3\<lparr>e_gameState := (e_gameState g3)\<lparr>speed := speed (e_gameState g3) + 0.1\<rparr>\<rparr>
            in g4\<lparr>e_spawnInterval := max 1.2 (e_spawnInterval g4 - 0.02)\<rparr>)
         else g1)"

text \<open>\<^verbatim>\<open>EnhancedRunnerGame.update(deltaTime)\<close>.\<close>

definition update :: "real \<Rightarrow> (nat \<Rightarrow> real) \<Rightarrow> (nat \<Rightarrow> real) \<Rightarrow> EnhancedRunnerGame \<Rightarrow> EnhancedRunnerGame result" where
  "update deltaTime rnd now g =
     (if \<not> isPlaying (e_gameState g) \<or> isPaused (e_gameState g) then Inr g
      else
        (let g1 = g\<lparr>e_player := EnhancedPlayer_update deltaTime (e_player g)\<rparr>
         in case cull_obstacles deltaTime (length (e_obstacles g1)) g1 of
              Inl e \<Rightarrow> Inl e
            | Inr g2 \<Rightarrow>
               (case cull_collectibles now deltaTime (length (e_collectibles g2)) g2 of
                  Inl e \<Rightarrow> Inl e
                | Inr g3 \<Rightarrow>
                   (case checkCollisions_enh (spawn_step_enh deltaTime rnd g3) of
                      Inl e \<Rightarrow> Inl e
                    | Inr g4 \<Rightarrow>
                       Inr (g4\<lparr>e_gameState :=
                                (e_gameState g4)\<lparr>score := score (e_gameState g4)
                                                           + \<lfloor>deltaTime * 5\<rfloor>\<rparr>\<rparr>)))))"

section \<open>Example states\<close>

text \<open>A game of main.ts that is over, with one obstacle and one collectible left in play.\<close>

definition example_over :: World where
  "example_over =
     init_World
       \<lparr>gameState := \<lparr>isPlaying = False, isPaused = False, score = 42, speed = 10.3, lives = 0,
                      gameOver = True\<rparr>,
        obstacles := [\<lparr>mesh = 1, position = \<lparr>vec_x = Some 2, vec_y = 0.75, vec_z = 4\<rparr>,
                      velocity_z = 10.2\<rparr>],
        collectibles := [\<lparr>mesh = 2, position = \<lparr>vec_x = Some (-2), vec_y = 1, vec_z = 4\<rparr>,
                         velocity_z = 10.2\<rparr>],
        spawnTimer := 1.5,
        surface := \<lparr>scene = [0, 1, 2], disposed = [], nextMesh = 3\<rparr>\<rparr>"

text \<open>The same for the enhanced game.\<close>

definition example_over_enh :: EnhancedRunnerGame where
  "example_over_enh =
     new_EnhancedRunnerGame
       \<lparr>e_gameState := \<lparr>isPlaying = False, isPaused = False, score = 42, speed = 10.3,
                        lives = 0, gameOver = True, theme = ''diwali-night''\<rparr>,
        e_obstacles := [\<lparr>mesh = 1, position = \<lparr>vec_x = Some 2, vec_y = 0.75, vec_z = 4\<rparr>,
                        velocity_z = 10.2\<rparr>],
        e_collectibles := [\<lparr>mesh = 2, position = \<lparr>vec_x = Some (-2), vec_y = 1, vec_z = 4\<rparr>,
                           velocity_z = 10.2, pickup_type = Some Diya\<rparr>],
        e_spawnTimer := 1.5,
        e_surface := \<lparr>scene = [0, 1, 2], disposed = [], nextMesh = 3\<rparr>\<rparr>"

text \<open>What one call of \<^verbatim>\<open>spawnObjects\<close> pushes onto each collection: the entities of
  that spawn tick.\<close>

definition spawned_obstacles :: "(nat \<Rightarrow> real) \<Rightarrow> World \<Rightarrow> Entity list" where
  "spawned_obstacles rnd w = drop (length (obstacles w)) (obstacles (spawnObjects rnd w))"

definition spawned_collectibles :: "(nat \<Rightarrow> real) \<Rightarrow> World \<Rightarrow> Entity list" where
  "spawned_collectibles rnd w = drop (length (collectibles w)) (collectibles (spawnObjects rnd w))"

definition spawned_obstacles_enh :: "(nat \<Rightarrow> real) \<Rightarrow> EnhancedRunnerGame \<Rightarrow> Entity list" where
  "spawned_obstacles_enh rnd g = drop (length (e_obstacles g)) (e_obstacles (spawnObjects_enh rnd g))"

definition spawned_collectibles_enh :: "(nat \<Rightarrow> real) \<Rightarrow> EnhancedRunnerGame \<Rightarrow> DiwaliCollectible list" where
  "spawned_collectibles_enh rnd g =
     drop (length (e_collectibles g)) (e_collectibles (spawnObjects_enh rnd g))"

text \<open>A sequence of draws: 0.5, 0.4, then 0.3 for ever.\<close>

definition example_rnd :: "nat \<Rightarrow> real" where
  "example_rnd k = (if k = 0 then 0.5 else if k = 1 then 0.4 else 0.3)"

section \<open>Events and reachable states\<close>

text \<open>
  What the host can do to the game of main.ts once \<^verbatim>\<open>init\<close> has run: click the start or
  restart button, deliver a key or touch command (the listeners ignore it unless the game
  is playing and not over), or call \<^verbatim>\<open>animate\<close> for a frame. A state is reachable when a
  sequence of such events leads to it from the initial state; a frame that throws leaves
  the state it had at the throw.
\<close>

datatype event = StartClick | Input command | Frame real "nat \<Rightarrow> real"

fun handle :: "event \<Rightarrow> World \<Rightarrow> World result" where
  "handle StartClick w = Inr (startGame w)"
| "handle (Input c) w =
     Inr (if \<not> isPlaying (gameState w) \<or> gameOver (gameState w) then w
          else w\<lparr>player := command_main c (player w)\<rparr>)"
| "handle (Frame currentTime rnd) w = animate currentTime rnd w"

inductive reachable :: "World \<Rightarrow> bool" where
  reachable_init: "reachable init_World"
| reachable_step: "reachable w \<Longrightarrow> reachable (state_of (handle e w))"

text \<open>
  The same for the enhanced game: its public methods \<^verbatim>\<open>startGame\<close>, \<^verbatim>\<open>pauseGame\<close>,
  \<^verbatim>\<open>stopGame\<close> and \<^verbatim>\<open>update\<close>, and the commands of its listeners (ignored unless the
  game is playing and not paused).
\<close>

datatype event_enh =
  Start | Pause | Stop | Input_enh command | Update real "nat \<Rightarrow> real" "nat \<Rightarrow> real"

fun handle_enh :: "event_enh \<Rightarrow> EnhancedRunnerGame \<Rightarrow> EnhancedRunnerGame result" where
  "handle_enh Start g = Inr (startGame_enh g)"
| "handle_enh Pause g = Inr (pauseGame g)"
| "handle_enh Stop g = Inr (stopGame g)"
| "handle_enh (Input_enh c) g =
     Inr (if \<not> isPlaying (e_gameState g) \<or> isPaused (e_gameState g) then g
          else g\<lparr>e_player := command_enh c (e_player g)\<rparr>)"
| "handle_enh (Update deltaTime rnd now) g = update deltaTime rnd now g"

inductive reachable_enh :: "EnhancedRunnerGame \<Rightarrow> bool" where
  reachable_enh_init: "reachable_enh new_EnhancedRunnerGame"
| reachable_enh_step: "reachable_enh g \<Longrightarrow> reachable_enh (state_of (handle_enh e g))"

text \<open>Running a list of events, each from the state the one before left.\<close>

definition run :: "event list \<Rightarrow> World \<Rightarrow> World" where
  "run es w = foldl (\<lambda>v e. state_of (handle e v)) w es"

definition run_enh :: "event_enh list \<Rightarrow> EnhancedRunnerGame \<Rightarrow> EnhancedRunnerGame" where
  "run_enh es g = foldl (\<lambda>v e. state_of (handle_enh e v)) g es"

text \<open>
  A game of main.ts: start, a first frame after 2.5 s and then frames 5 s apart, with
  the draws of \<open>example_rnd\<close> in each frame. Every spawn tick puts an obstacle in the
  centre lane, where the player stands, and a collectible in each side lane. After two
  frames the player has lost one life, after three frames two.
\<close>

definition example_two_frames :: World where
  "example_two_frames =
     run [StartClick, Frame 2500 example_rnd, Frame 7500 example_rnd] init_World"

definition example_last_life :: World where
  "example_last_life = run [Frame 12500 example_rnd] example_two_frames"

text \<open>A second sequence of draws: 0.9 at the calls 0 and 3, otherwise 0.1. In the
  enhanced game it spawns two obstacles per tick, in the left and the centre lane, and
  no collectible.\<close>

definition example_rnd2 :: "nat \<Rightarrow> real" where
  "example_rnd2 k = (if k = 0 \<or> k = 3 then 0.9 else 0.1)"

text \<open>A game of the enhanced class: start, an update after 2 s and two updates of 5 s.
  The player, in the centre lane, has lost two lives.\<close>

definition example_last_life_enh :: EnhancedRunnerGame where
  "example_last_life_enh =
     run_enh [Start, Update 2 example_rnd2 (\<lambda>i. 0), Update 5 example_rnd2 (\<lambda>i. 0),
              Update 5 example_rnd2 (\<lambda>i. 0)] new_EnhancedRunnerGame"

text \<open>
  The enhanced game inside the next update (4.9 s later) of that run, at the moment
  collision resolution starts: the obstacles at the indices 0 and 1 have reached the
  player's line, the one at index 1 in the player's lane; two more have just spawned.
\<close>

definition example_fatal_scan_enh :: EnhancedRunnerGame where
  "example_fatal_scan_enh =
     \<lparr>e_surface = \<lparr>scene = [0, 5, 6, 7, 8], disposed = [2, 1, 4, 3], nextMesh = 9\<rparr>,
      e_player = new_EnhancedPlayer 0,
      e_obstacles =
        [\<lparr>mesh = 5, position = \<lparr>vec_x = Some (-2), vec_y = 0.75, vec_z = -0.02\<rparr>, velocity_z = 10.2\<rparr>,
         \<lparr>mesh = 6, position = \<lparr>vec_x = Some 0, vec_y = 0.75, vec_z = -0.02\<rparr>, velocity_z = 10.2\<rparr>,
         \<lparr>mesh = 7, position = \<lparr>vec_x = Some (-2), vec_y = 0.75, vec_z = -50\<rparr>, velocity_z = 10.3\<rparr>,
         \<lparr>mesh = 8, position = \<lparr>vec_x = Some 0, vec_y = 0.75, vec_z = -50\<rparr>, velocity_z = 10.3\<rparr>],
      e_collectibles = [],
      e_gameState = \<lparr>isPlaying = True, isPaused = False, score = 60, speed = 10.4, lives = 1,
                     gameOver = False, theme = ''diwali-night''\<rparr>,
      e_spawnTimer = 0, e_spawnInterval = 1.92\<rparr>"






text \<open>The invariant of the lives counter: never negative, and at least 1 while the game
  is playing.\<close>

definition lives_ok :: "'a GameStateBase_scheme \<Rightarrow> bool" where
  "lives_ok gs = (0 \<le> lives gs \<and> (isPlaying gs \<longrightarrow> 1 \<le> lives gs))"

section \<open>Lane changes and jumps\<close>

lemma currentLane_command_main:
  "0 \<le> currentLane p \<Longrightarrow> currentLane p \<le> 2 \<Longrightarrow>
   0 \<le> currentLane (command_main c p) \<and> currentLane (command_main c p) \<le> 2"
  by (cases c) (auto simp: jump_def moveLeft_def moveRight_def lanes_def Let_def)

lemma currentLane_commands_main:
  "0 \<le> currentLane p \<Longrightarrow> currentLane p \<le> 2 \<Longrightarrow>
   0 \<le> currentLane (commands_main cs p) \<and> currentLane (commands_main cs p) \<le> 2"
  unfolding commands_main_def
proof (induction cs arbitrary: p)
  case Nil
  then show ?case by simp
next
  case (Cons c cs)
  from currentLane_command_main[OF Cons.prems] Cons.IH[of "command_main c p"]
  show ?case by simp
qed

lemma currentLane_command_enh:
  "0 \<le> currentLane p \<Longrightarrow> currentLane p \<le> 2 \<Longrightarrow>
   0 \<le> currentLane (command_enh c p) \<and> currentLane (command_enh c p) \<le> 2"
  by (cases c) (auto simp: jump_enh_def moveLeft_enh_def moveRight_enh_def lanes_def Let_def)

lemma currentLane_commands_enh:
  "0 \<le> currentLane p \<Longrightarrow> currentLane p \<le> 2 \<Longrightarrow>
   0 \<le> currentLane (commands_enh cs p) \<and> currentLane (commands_enh cs p) \<le> 2"
  unfolding commands_enh_def
proof (induction cs arbitrary: p)
  case Nil
  then show ?case by simp
next
  case (Cons c cs)
  from currentLane_command_enh[OF Cons.prems] Cons.IH[of "command_enh c p"]
  show ?case by simp
qed

text \<open>
  Claim C7. For every sequence of lane commands applied to a new player (who starts in the
  centre lane), in main.ts and in the enhanced game, the lane index stays within
  \<open>[0, laneCount - 1]\<close>. At the left bound \<^verbatim>\<open>moveLeft\<close> returns the player as it was, at
  the right bound \<^verbatim>\<open>moveRight\<close> does: lane index and target position are unchanged, and
  neither function has an error result.
\<close>

theorem lane_index_stays_in_bounds:
  "0 \<le> currentLane (commands_main cs (new_Player m))
   \<and> currentLane (commands_main cs (new_Player m)) \<le> int (length lanes) - 1
   \<and> 0 \<le> currentLane (commands_enh cs (new_EnhancedPlayer m))
   \<and> currentLane (commands_enh cs (new_EnhancedPlayer m)) \<le> int (length lanes) - 1
   \<and> (currentLane p = 0 \<longrightarrow> moveLeft p = p \<and> moveLeft_enh p = p)
   \<and> (currentLane p = int (length lanes) - 1 \<longrightarrow> moveRight p = p \<and> moveRight_enh p = p)"
proof -
  have a: "0 \<le> currentLane (commands_main cs (new_Player m))
      \<and> currentLane (commands_main cs (new_Player m)) \<le> 2"
    by (rule currentLane_commands_main) (simp_all add: new_Player_def)
  have b: "0 \<le> currentLane (commands_enh cs (new_EnhancedPlayer m))
      \<and> currentLane (commands_enh cs (new_EnhancedPlayer m)) \<le> 2"
    by (rule currentLane_commands_enh) (simp_all add: new_EnhancedPlayer_def)
  have c: "currentLane p = 0 \<longrightarrow> moveLeft p = p \<and> moveLeft_enh p = p"
    by (simp add: moveLeft_def moveLeft_enh_def)
  have d: "currentLane p = int (length lanes) - 1 \<longrightarrow> moveRight p = p \<and> moveRight_enh p = p"
    by (simp add: moveRight_def moveRight_enh_def)
  from a b c d show ?thesis by (simp add: lanes_def)
qed

theorem lane_index_stays_in_bounds_witness:
  "currentLane (commands_main [MoveLeft, MoveLeft, MoveRight, MoveRight, MoveRight] (new_Player 0)) = 2
   \<and> targetX (commands_main [MoveLeft, MoveLeft, MoveRight, MoveRight, MoveRight] (new_Player 0)) = Some 2
   \<and> currentLane (commands_enh [MoveLeft, MoveLeft] (new_EnhancedPlayer 0)) = 0
   \<and> currentLane (moveLeft (new_Player 0)) = 0
   \<and> moveLeft (moveLeft (new_Player 0)) = moveLeft (new_Player 0)
   \<and> moveLeft_enh (moveLeft (new_Player 0)) = moveLeft (new_Player 0)
   \<and> currentLane (moveRight (new_Player 0)) = int (length lanes) - 1
   \<and> moveRight (moveRight (new_Player 0)) = moveRight (new_Player 0)
   \<and> moveRight_enh (moveRight (new_Player 0)) = moveRight (new_Player 0)"
  using lane_index_stays_in_bounds [of "[MoveLeft, MoveLeft, MoveRight, MoveRight, MoveRight]" 0 "moveLeft (new_Player 0)"]
        lane_index_stays_in_bounds [of "[MoveLeft, MoveLeft]" 0 "moveRight (new_Player 0)"]
  by (simp add: commands_main_def commands_enh_def new_Player_def new_EnhancedPlayer_def
        moveLeft_def moveRight_def moveLeft_enh_def moveRight_enh_def lanes_def array_get_def Let_def)

text \<open>
  Claim C8. A jump of a grounded player sets the vertical velocity to the jump impulse (15)
  and clears the grounded flag; a jump of a player in the air changes nothing. So a second
  jump before landing never changes the vertical velocity again: two jumps in a row are
  one jump. This holds for the player of main.ts and for the enhanced player.
\<close>

theorem single_jump_per_grounded_period:
  "(isGrounded p \<longrightarrow> vec_y (velocity (jump p)) = 15 \<and> \<not> isGrounded (jump p)
       \<and> vec_y (velocity (jump_enh p)) = jumpForce \<and> \<not> isGrounded (jump_enh p))
   \<and> (\<not> isGrounded p \<longrightarrow> jump p = p \<and> jump_enh p = p)
   \<and> jump (jump p) = jump p \<and> jump_enh (jump_enh p) = jump_enh p"
  by (simp add: jump_def jump_enh_def)

theorem single_jump_per_grounded_period_witness:
  "isGrounded (new_Player 0) \<and> vec_y (velocity (jump (new_Player 0))) = 15
   \<and> \<not> isGrounded (jump (new_Player 0))
   \<and> vec_y (velocity (jump_enh (new_EnhancedPlayer 0))) = 15
   \<and> jump (jump (new_Player 0)) = jump (new_Player 0)
   \<and> vec_y (velocity (jump (Player_update 0.1 (jump (new_Player 0))))) = 10"
  using single_jump_per_grounded_period [of "new_Player 0"]
        single_jump_per_grounded_period [of "new_EnhancedPlayer 0"]
        single_jump_per_grounded_period [of "Player_update 0.1 (jump (new_Player 0))"]
  by (simp add: new_Player_def new_EnhancedPlayer_def jump_def jump_enh_def jumpForce_def
        Player_update_def fall_def num_sub_def Let_def)

section \<open>Frames outside play\<close>

text \<open>
  Claim C10. When \<^verbatim>\<open>isPlaying\<close> is false, a frame of main.ts changes nothing but the
  frame clock \<^verbatim>\<open>lastTime\<close>: session state, player, health bar, both collections and the
  scene stay as they are. When \<^verbatim>\<open>isPlaying\<close> is false or \<^verbatim>\<open>isPaused\<close> is true, \<^verbatim>\<open>update\<close>
  of the enhanced game returns the game unchanged. Neither throws.
\<close>

theorem update_is_noop_when_not_running:
  "(\<not> isPlaying (gameState w) \<longrightarrow> animate currentTime rnd w = Inr (w\<lparr>lastTime := currentTime\<rparr>))
   \<and> (\<not> isPlaying (e_gameState g) \<or> isPaused (e_gameState g) \<longrightarrow> update deltaTime rnd now g = Inr g)"
  by (simp add: animate_def update_def Let_def)

theorem update_is_noop_when_not_running_witness:
  "\<not> isPlaying (gameState init_World)
   \<and> animate 16 (\<lambda>k. 0.5) init_World = Inr (init_World\<lparr>lastTime := 16\<rparr>)
   \<and> \<not> isPlaying (e_gameState new_EnhancedRunnerGame)
   \<and> update 0.016 (\<lambda>k. 0.5) (\<lambda>i. 0) new_EnhancedRunnerGame = Inr new_EnhancedRunnerGame
   \<and> isPaused (e_gameState (pauseGame (startGame_enh new_EnhancedRunnerGame)))
   \<and> update 0.016 (\<lambda>k. 0.5) (\<lambda>i. 0) (pauseGame (startGame_enh new_EnhancedRunnerGame))
       = Inr (pauseGame (startGame_enh new_EnhancedRunnerGame))"
  using update_is_noop_when_not_running [of init_World 16 "\<lambda>k. 0.5" new_EnhancedRunnerGame "0.016" "\<lambda>i. 0"]
        update_is_noop_when_not_running [of init_World 16 "\<lambda>k. 0.5"
          "pauseGame (startGame_enh new_EnhancedRunnerGame)" "0.016" "\<lambda>i. 0"]
  by (simp add: init_World_def new_EnhancedRunnerGame_def pauseGame_def startGame_enh_def
        clearGameObjects_def)

section \<open>Starting and restarting\<close>

lemma scene_foldl_dispose:
  "scene (foldl (\<lambda>sf e. release (mesh e) (scene_remove (mesh e) sf)) sf es)
     = filter (\<lambda>m. m \<notin> mesh ` set es) (scene sf)"
  by (induction es arbitrary: sf)
     (auto simp: release_def scene_remove_def removeAll_filter_not_eq intro: filter_cong)

lemma disposed_foldl_dispose:
  "disposed (foldl (\<lambda>sf e. release (mesh e) (scene_remove (mesh e) sf)) sf es)
     = disposed sf @ map mesh es"
  by (induction es arbitrary: sf) (auto simp: release_def scene_remove_def)

lemma nextMesh_foldl_dispose:
  "nextMesh (foldl (\<lambda>sf e. release (mesh e) (scene_remove (mesh e) sf)) sf es) = nextMesh sf"
  by (induction es arbitrary: sf) (auto simp: release_def scene_remove_def)

text \<open>
  Claim C5. Whatever the state before, \<^verbatim>\<open>startGame\<close> (the start and the restart command of
  both games) leaves score 0, lives 3, speed 10 (the base speed), spawn timer 0, the game
  playing and not over, and both collections empty; every obstacle and collectible of the
  state before has been disposed and is out of the scene.
\<close>

theorem start_resets_session:
  "score (gameState (startGame w)) = 0
   \<and> lives (gameState (startGame w)) = 3
   \<and> speed (gameState (startGame w)) = 10
   \<and> spawnTimer (startGame w) = 0
   \<and> isPlaying (gameState (startGame w)) \<and> \<not> gameOver (gameState (startGame w))
   \<and> obstacles (startGame w) = [] \<and> collectibles (startGame w) = []
   \<and> (\<forall>e \<in> set (obstacles w) \<union> set (collectibles w).
         mesh e \<in> set (disposed (surface (startGame w)))
         \<and> mesh e \<notin> set (scene (surface (startGame w))))
   \<and> score (e_gameState (startGame_enh g)) = 0
   \<and> lives (e_gameState (startGame_enh g)) = 3
   \<and> speed (e_gameState (startGame_enh g)) = 10
   \<and> e_spawnTimer (startGame_enh g) = 0
   \<and> isPlaying (e_gameState (startGame_enh g)) \<and> \<not> gameOver (e_gameState (startGame_enh g))
   \<and> \<not> isPaused (e_gameState (startGame_enh g))
   \<and> e_obstacles (startGame_enh g) = [] \<and> e_collectibles (startGame_enh g) = []
   \<and> (\<forall>m \<in> mesh ` set (e_obstacles g) \<union> mesh ` set (e_collectibles g).
         m \<in> set (disposed (e_surface (startGame_enh g)))
         \<and> m \<notin> set (scene (e_surface (startGame_enh g))))"
proof -
  have main_state: "score (gameState (startGame w)) = 0
     \<and> lives (gameState (startGame w)) = 3
     \<and> speed (gameState (startGame w)) = 10
     \<and> spawnTimer (startGame w) = 0
     \<and> isPlaying (gameState (startGame w)) \<and> \<not> gameOver (gameState (startGame w))
     \<and> obstacles (startGame w) = [] \<and> collectibles (startGame w) = []"
    by (simp add: startGame_def Let_def)
  have main_surface: "\<forall>e \<in> set (obstacles w) \<union> set (collectibles w).
         mesh e \<in> set (disposed (surface (startGame w)))
         \<and> mesh e \<notin> set (scene (surface (startGame w)))"
    by (auto simp: startGame_def Let_def Entity_dispose_def scene_foldl_dispose
          disposed_foldl_dispose)
  have enh_state: "score (e_gameState (startGame_enh g)) = 0
     \<and> lives (e_gameState (startGame_enh g)) = 3
     \<and> speed (e_gameState (startGame_enh g)) = 10
     \<and> e_spawnTimer (startGame_enh g) = 0
     \<and> isPlaying (e_gameState (startGame_enh g)) \<and> \<not> gameOver (e_gameState (startGame_enh g))
     \<and> \<not> isPaused (e_gameState (startGame_enh g))
     \<and> e_obstacles (startGame_enh g) = [] \<and> e_collectibles (startGame_enh g) = []"
    by (simp add: startGame_enh_def clearGameObjects_def Let_def)
  have enh_surface: "\<forall>m \<in> mesh ` set (e_obstacles g) \<union> mesh ` set (e_collectibles g).
         m \<in> set (disposed (e_surface (startGame_enh g)))
         \<and> m \<notin> set (scene (e_surface (startGame_enh g)))"
    by (auto simp: startGame_enh_def clearGameObjects_def Let_def scene_foldl_dispose
          disposed_foldl_dispose)
  from main_state main_surface enh_state enh_surface show ?thesis by blast
qed

theorem start_resets_session_witness:
  "obstacles example_over \<noteq> [] \<and> collectibles example_over \<noteq> []
   \<and> gameState (startGame example_over)
       = \<lparr>isPlaying = True, isPaused = False, score = 0, speed = 10, lives = 3, gameOver = False\<rparr>
   \<and> spawnTimer (startGame example_over) = 0
   \<and> obstacles (startGame example_over) = [] \<and> collectibles (startGame example_over) = []
   \<and> scene (surface (startGame example_over)) = [0]
   \<and> disposed (surface (startGame example_over)) = [1, 2]
   \<and> e_gameState (startGame_enh example_over_enh)
       = \<lparr>isPlaying = True, isPaused = False, score = 0, speed = 10, lives = 3, gameOver = False,
          theme = ''diwali-night''\<rparr>
   \<and> e_obstacles (startGame_enh example_over_enh) = []
   \<and> e_collectibles (startGame_enh example_over_enh) = []
   \<and> scene (e_surface (startGame_enh example_over_enh)) = [0]
   \<and> disposed (e_surface (startGame_enh example_over_enh)) = [1, 2]"
  using start_resets_session [of example_over example_over_enh]
  by (simp add: example_over_def example_over_enh_def init_World_def new_EnhancedRunnerGame_def
        startGame_def startGame_enh_def clearGameObjects_def Entity_dispose_def release_def
        scene_remove_def setHealth_def Let_def)

section \<open>Spawning\<close>

lemma lane_x_Some:
  "l \<in> {0, 1, 2} \<Longrightarrow> lane_x (Some l) = Some (2 * real_of_int l - 2)"
  by (auto simp: lane_x_def array_get_def lanes_def)

lemma lane_x_in_lanes:
  "l \<in> {0, 1, 2} \<Longrightarrow> 2 * real_of_int l - 2 \<in> set lanes"
  by (auto simp: lanes_def)

lemma remove_at_distinct:
  assumes "distinct xs"
  shows "distinct (remove_at k xs) \<and> set (remove_at k xs) \<subseteq> set xs
         \<and> length xs \<le> Suc (length (remove_at k xs))
         \<and> (k < length xs \<longrightarrow> xs ! k \<notin> set (remove_at k xs))"
proof (cases "k < length xs")
  case True
  have "distinct (take k xs @ drop k xs)" using assms by simp
  moreover have "drop k xs = xs ! k # drop (Suc k) xs"
    using True by (simp add: Cons_nth_drop_Suc)
  ultimately have d: "distinct (take k xs @ xs ! k # drop (Suc k) xs)" by simp
  have s: "set (take k xs) \<subseteq> set xs" "set (drop (Suc k) xs) \<subseteq> set xs"
    by (simp_all add: set_take_subset set_drop_subset)
  from d s True show ?thesis by (auto simp: remove_at_def)
next
  case False
  then show ?thesis using assms by (simp add: remove_at_def)
qed

lemma splice1_distinct:
  assumes "distinct xs" and "splice1 start xs = (removed, rest)"
  shows "distinct rest \<and> set rest \<subseteq> set xs \<and> length xs \<le> Suc (length rest)
         \<and> (case array_get removed 0 of None \<Rightarrow> True | Some l \<Rightarrow> l \<in> set xs \<and> l \<notin> set rest)"
proof -
  define k where "k = nat (if start < 0 then max (int (length xs) + start) 0 else min start (int (length xs)))"
  have rm: "removed = take 1 (drop k xs)" and rest: "rest = remove_at k xs"
    using assms(2) by (simp_all add: splice1_def Let_def k_def)
  note r = remove_at_distinct[OF assms(1), of k]
  have "case array_get removed 0 of None \<Rightarrow> True | Some l \<Rightarrow> l \<in> set xs \<and> l \<notin> set rest"
  proof (cases "k < length xs")
    case True
    then have "removed = [xs ! k]" unfolding rm
      by (simp add: take_Suc_conv_app_nth Cons_nth_drop_Suc[symmetric])
    then show ?thesis using r True by (simp add: array_get_def rest)
  next
    case False
    then have "removed = []" unfolding rm by simp
    then show ?thesis by (simp add: array_get_def)
  qed
  with r show ?thesis by (simp add: rest)
qed


lemma spawn_collectibles_shape:
  "\<exists>new sf. spawn_collectibles rnd k ls w
                = w\<lparr>collectibles := collectibles w @ new, surface := sf\<rparr>
     \<and> (\<forall>c \<in> set new. (\<exists>l \<in> set ls. vec_x (position c) = lane_x (Some l))
            \<and> velocity_z c = speed (gameState w) \<and> vec_z (position c) = -50)"
proof (induction ls arbitrary: k w)
  case Nil
  have "spawn_collectibles rnd k [] w = w\<lparr>collectibles := collectibles w @ [], surface := surface w\<rparr>"
    by simp
  then show ?case by (metis empty_iff empty_set)
next
  case (Cons lane ls)
  show ?case
  proof (cases "rnd k < 0.6")
    case True
    define col where "col = fst (new_Collectible (Some lane) (-50) w)"
    define w1 where "w1 = snd (new_Collectible (Some lane) (-50) w)"
    define w2 where "w2 = w1\<lparr>collectibles := collectibles w1 @ [col]\<rparr>"
    have step: "spawn_collectibles rnd k (lane # ls) w = spawn_collectibles rnd (Suc k) ls w2"
      using True by (simp add: col_def w1_def w2_def case_prod_unfold Let_def)
    have w2: "w2 = w\<lparr>collectibles := collectibles w @ [col],
                      surface := scene_add (nextMesh (surface w)) ((surface w)\<lparr>nextMesh := Suc (nextMesh (surface w))\<rparr>)\<rparr>"
      by (simp add: w2_def w1_def col_def new_Collectible_def Let_def)
    have col: "vec_x (position col) = lane_x (Some lane)" "velocity_z col = speed (gameState w)"
      "vec_z (position col) = -50"
      by (simp_all add: col_def new_Collectible_def Let_def)
    from Cons.IH[of "Suc k" w2] obtain new sf where
      r: "spawn_collectibles rnd (Suc k) ls w2 = w2\<lparr>collectibles := collectibles w2 @ new, surface := sf\<rparr>"
      and p: "\<forall>c \<in> set new. (\<exists>l \<in> set ls. vec_x (position c) = lane_x (Some l))
            \<and> velocity_z c = speed (gameState w2) \<and> vec_z (position c) = -50"
      by blast
    have "spawn_collectibles rnd k (lane # ls) w
            = w\<lparr>collectibles := collectibles w @ (col # new), surface := sf\<rparr>"
      unfolding step r by (simp add: w2)
    moreover have "\<forall>c \<in> set (col # new). (\<exists>l \<in> set (lane # ls). vec_x (position c) = lane_x (Some l))
            \<and> velocity_z c = speed (gameState w) \<and> vec_z (position c) = -50"
      using p col by (auto simp: w2)
    ultimately show ?thesis by blast
  next
    case False
    then have step: "spawn_collectibles rnd k (lane # ls) w = spawn_collectibles rnd (Suc k) ls w"
      by simp
    from Cons.IH[of "Suc k" w] obtain new sf where
      r: "spawn_collectibles rnd (Suc k) ls w = w\<lparr>collectibles := collectibles w @ new, surface := sf\<rparr>"
      and p: "\<forall>c \<in> set new. (\<exists>l \<in> set ls. vec_x (position c) = lane_x (Some l))
            \<and> velocity_z c = speed (gameState w) \<and> vec_z (position c) = -50"
      by blast
    have "\<forall>c \<in> set new. (\<exists>l \<in> set (lane # ls). vec_x (position c) = lane_x (Some l))
            \<and> velocity_z c = speed (gameState w) \<and> vec_z (position c) = -50"
      using p by auto
    with r step show ?thesis by metis
  qed
qed

lemma spawnObjects_shape:
  "\<exists>newO newC sf. spawnObjects rnd w
       = w\<lparr>obstacles := obstacles w @ newO, collectibles := collectibles w @ newC, surface := sf\<rparr>
     \<and> length newO \<le> 1
     \<and> (\<forall>ob \<in> set newO. velocity_z ob = speed (gameState w) \<and> vec_z (position ob) = -50)
     \<and> (\<forall>c \<in> set newC. velocity_z c = speed (gameState w) \<and> vec_z (position c) = -50)
     \<and> (\<forall>c \<in> set newC. vec_x (position c) \<in> Some ` set lanes)
     \<and> (\<forall>ob \<in> set newO. \<forall>c \<in> set newC. vec_x (position ob) \<noteq> vec_x (position c))
     \<and> (\<exists>x \<in> set lanes. \<forall>ob \<in> set newO. vec_x (position ob) \<noteq> Some x)"
proof (cases "rnd 0 < 0.7")
  case True
  define removed where "removed = fst (splice1 \<lfloor>rnd 1 * real (length [0, 1, 2::int])\<rfloor> [0, 1, 2::int])"
  define rest where "rest = snd (splice1 \<lfloor>rnd 1 * real (length [0, 1, 2::int])\<rfloor> [0, 1, 2::int])"
  define ob where "ob = fst (new_Obstacle (array_get removed 0) (-50) w)"
  define w1 where "w1 = snd (new_Obstacle (array_get removed 0) (-50) w)"
  define w2 where "w2 = w1\<lparr>obstacles := obstacles w1 @ [ob]\<rparr>"
  have step: "spawnObjects rnd w = spawn_collectibles rnd 2 rest w2"
    using True
    by (simp add: spawnObjects_def Let_def case_prod_unfold removed_def rest_def ob_def w1_def w2_def)
  have sp: "splice1 \<lfloor>rnd 1 * real (length [0, 1, 2::int])\<rfloor> [0, 1, 2::int] = (removed, rest)"
    by (simp add: removed_def rest_def)
  from splice1_distinct[OF _ sp]
  have rest: "set rest \<subseteq> {0, 1, 2}" "length rest \<ge> 2"
    and rem: "case array_get removed 0 of None \<Rightarrow> True | Some l \<Rightarrow> l \<in> {0, 1, 2} \<and> l \<notin> set rest"
    by (auto split: option.splits)
  have w2: "w2 = w\<lparr>obstacles := obstacles w @ [ob],
                    surface := scene_add (nextMesh (surface w)) ((surface w)\<lparr>nextMesh := Suc (nextMesh (surface w))\<rparr>)\<rparr>"
    by (simp add: w2_def w1_def ob_def new_Obstacle_def Let_def)
  have ob: "vec_x (position ob) = lane_x (array_get removed 0)" "velocity_z ob = speed (gameState w)"
      "vec_z (position ob) = -50"
    by (simp_all add: ob_def new_Obstacle_def Let_def)
  from spawn_collectibles_shape[of rnd 2 rest w2] obtain new sf where
    r: "spawn_collectibles rnd 2 rest w2 = w2\<lparr>collectibles := collectibles w2 @ new, surface := sf\<rparr>"
    and p: "\<forall>c \<in> set new. (\<exists>l \<in> set rest. vec_x (position c) = lane_x (Some l))
            \<and> velocity_z c = speed (gameState w2) \<and> vec_z (position c) = -50"
    by blast
  have eq: "spawnObjects rnd w
       = w\<lparr>obstacles := obstacles w @ [ob], collectibles := collectibles w @ new, surface := sf\<rparr>"
    unfolding step r by (simp add: w2)
  have cx: "\<forall>c \<in> set new. vec_x (position c) \<in> Some ` set lanes"
  proof
    fix c assume "c \<in> set new"
    with p obtain l where l: "l \<in> set rest" "vec_x (position c) = lane_x (Some l)" by blast
    with rest(1) have "l \<in> {0, 1, 2}" by blast
    from lane_x_Some[OF this] lane_x_in_lanes[OF this] l(2)
    show "vec_x (position c) \<in> Some ` set lanes" by simp
  qed
  have excl: "\<forall>c \<in> set new. vec_x (position ob) \<noteq> vec_x (position c)"
  proof
    fix c assume "c \<in> set new"
    with p obtain l where l: "l \<in> set rest" "vec_x (position c) = lane_x (Some l)" by blast
    with rest(1) have l3: "l \<in> {0, 1, 2}" by blast
    show "vec_x (position ob) \<noteq> vec_x (position c)"
    proof (cases "array_get removed 0")
      case None
      then show ?thesis using l(2) lane_x_Some[OF l3] ob(1) by (simp add: lane_x_def)
    next
      case (Some r)
      with rem have r3: "r \<in> {0, 1, 2}" and "r \<notin> set rest" by simp_all
      with l(1) have "r \<noteq> l" by blast
      then show ?thesis using l(2) lane_x_Some[OF l3] lane_x_Some[OF r3] ob(1) Some by simp
    qed
  qed
  have free: "\<exists>x \<in> set lanes. vec_x (position ob) \<noteq> Some x"
  proof -
    from rest(2) obtain l where l: "l \<in> set rest" by (cases rest) auto
    with rest(1) have l3: "l \<in> {0, 1, 2}" by blast
    have "vec_x (position ob) \<noteq> lane_x (Some l)"
    proof (cases "array_get removed 0")
      case None
      then show ?thesis using lane_x_Some[OF l3] ob(1) by (simp add: lane_x_def)
    next
      case (Some r)
      with rem have r3: "r \<in> {0, 1, 2}" and "r \<notin> set rest" by simp_all
      with l have "r \<noteq> l" by blast
      then show ?thesis using lane_x_Some[OF l3] lane_x_Some[OF r3] ob(1) Some by simp
    qed
    with lane_x_Some[OF l3] lane_x_in_lanes[OF l3] show ?thesis by auto
  qed
  from eq p ob cx excl free show ?thesis
    apply (rule_tac x = "[ob]" in exI)
    apply (rule_tac x = new in exI)
    apply (rule_tac x = sf in exI)
    apply (simp add: w2)
    done
next
  case False
  then have step: "spawnObjects rnd w = spawn_collectibles rnd 1 [0, 1, 2] w"
    by (simp add: spawnObjects_def Let_def)
  from spawn_collectibles_shape[of rnd 1 "[0, 1, 2]" w] obtain new sf where
    r: "spawn_collectibles rnd 1 [0, 1, 2] w = w\<lparr>collectibles := collectibles w @ new, surface := sf\<rparr>"
    and p: "\<forall>c \<in> set new. (\<exists>l \<in> set [0, 1, 2]. vec_x (position c) = lane_x (Some l))
            \<and> velocity_z c = speed (gameState w) \<and> vec_z (position c) = -50"
    by blast
  have cx: "\<forall>c \<in> set new. vec_x (position c) \<in> Some ` set lanes"
  proof
    fix c assume "c \<in> set new"
    with p obtain l where l: "l \<in> set [0, 1, 2]" "vec_x (position c) = lane_x (Some l)" by blast
    then have "l \<in> {0, 1, 2}" by simp
    from lane_x_Some[OF this] lane_x_in_lanes[OF this] l(2)
    show "vec_x (position c) \<in> Some ` set lanes" by simp
  qed
  have eq: "spawnObjects rnd w
       = w\<lparr>obstacles := obstacles w @ [], collectibles := collectibles w @ new, surface := sf\<rparr>"
    unfolding step r by simp
  from eq p cx show ?thesis
    apply (rule_tac x = "[]" in exI)
    apply (rule_tac x = new in exI)
    apply (rule_tac x = sf in exI)
    apply (simp add: lanes_def)
    apply blast
    done
qed


lemma spawn_obstacles_enh_shape:
  assumes "spawn_obstacles_enh rnd k n av g = (k', rest, g')" and "distinct av"
  shows "\<exists>newO sf. g' = g\<lparr>e_obstacles := e_obstacles g @ newO, e_surface := sf\<rparr>
     \<and> distinct rest \<and> set rest \<subseteq> set av \<and> length av \<le> n + length rest
     \<and> length newO \<le> n
     \<and> (\<forall>ob \<in> set newO. velocity_z ob = speed (e_gameState g) \<and> vec_z (position ob) = -50
           \<and> (vec_x (position ob) = None
                \<or> (\<exists>l \<in> set av - set rest. vec_x (position ob) = lane_x (Some l))))"
  using assms
proof (induction n arbitrary: k av g)
  case 0
  then have "g' = g\<lparr>e_obstacles := e_obstacles g @ [], e_surface := e_surface g\<rparr>" "rest = av"
    by simp_all
  with 0 show ?case
    apply (rule_tac x = "[]" in exI)
    apply (rule_tac x = "e_surface g" in exI)
    apply simp
    done
next
  case (Suc n)
  show ?case
  proof (cases "length av > 0")
    case False
    with Suc.prems have "g' = g\<lparr>e_obstacles := e_obstacles g @ [], e_surface := e_surface g\<rparr>" "rest = av"
      by simp_all
    with Suc.prems show ?thesis
      apply (rule_tac x = "[]" in exI)
      apply (rule_tac x = "e_surface g" in exI)
      apply simp
      done
  next
    case True
    define removed where "removed = fst (splice1 \<lfloor>rnd k * real (length av)\<rfloor> av)"
    define rest1 where "rest1 = snd (splice1 \<lfloor>rnd k * real (length av)\<rfloor> av)"
    define ob where "ob = (fst (new_DiwaliObstacle (array_get removed 0) (-50) g))
                            \<lparr>velocity_z := speed (e_gameState g)\<rparr>"
    define g2 where "g2 = g\<lparr>e_obstacles := e_obstacles g @ [ob],
        e_surface := scene_add (mesh ob) ((e_surface g)\<lparr>nextMesh := Suc (nextMesh (e_surface g))\<rparr>)\<rparr>"
    have step: "spawn_obstacles_enh rnd k (Suc n) av g = spawn_obstacles_enh rnd (Suc k) n rest1 g2"
      using True
      by (simp add: Let_def case_prod_unfold removed_def rest1_def ob_def g2_def
            new_DiwaliObstacle_def)
    have sp: "splice1 \<lfloor>rnd k * real (length av)\<rfloor> av = (removed, rest1)"
      by (simp add: removed_def rest1_def)
    from splice1_distinct[OF Suc.prems(2) sp]
    have r1: "distinct rest1" "set rest1 \<subseteq> set av" "length av \<le> Suc (length rest1)"
      and rem: "case array_get removed 0 of None \<Rightarrow> True | Some l \<Rightarrow> l \<in> set av \<and> l \<notin> set rest1"
      by simp_all
    have ob: "vec_x (position ob) = lane_x (array_get removed 0)"
      "velocity_z ob = speed (e_gameState g)" "vec_z (position ob) = -50"
      by (simp_all add: ob_def new_DiwaliObstacle_def Let_def)
    from Suc.prems(1) step have rec: "spawn_obstacles_enh rnd (Suc k) n rest1 g2 = (k', rest, g')"
      by simp
    from Suc.IH[OF rec r1(1)] obtain newO sf where
      g': "g' = g2\<lparr>e_obstacles := e_obstacles g2 @ newO, e_surface := sf\<rparr>"
      and r: "distinct rest" "set rest \<subseteq> set rest1" "length rest1 \<le> n + length rest"
        "length newO \<le> n"
      and p: "\<forall>ob \<in> set newO. velocity_z ob = speed (e_gameState g2) \<and> vec_z (position ob) = -50
           \<and> (vec_x (position ob) = None
                \<or> (\<exists>l \<in> set rest1 - set rest. vec_x (position ob) = lane_x (Some l)))"
      by blast
    have eq: "g' = g\<lparr>e_obstacles := e_obstacles g @ (ob # newO), e_surface := sf\<rparr>"
      unfolding g' by (simp add: g2_def)
    have obx: "vec_x (position ob) = None
                \<or> (\<exists>l \<in> set av - set rest. vec_x (position ob) = lane_x (Some l))"
    proof (cases "array_get removed 0")
      case None
      then show ?thesis using ob(1) by (simp add: lane_x_def)
    next
      case (Some l)
      with rem have "l \<in> set av" "l \<notin> set rest1" by simp_all
      with r(2) have "l \<in> set av - set rest" by blast
      with ob(1) Some show ?thesis by auto
    qed
    have px: "\<forall>ob \<in> set (ob # newO). velocity_z ob = speed (e_gameState g) \<and> vec_z (position ob) = -50
           \<and> (vec_x (position ob) = None
                \<or> (\<exists>l \<in> set av - set rest. vec_x (position ob) = lane_x (Some l)))"
    proof
      fix x assume "x \<in> set (ob # newO)"
      then consider "x = ob" | "x \<in> set newO" by auto
      then show "velocity_z x = speed (e_gameState g) \<and> vec_z (position x) = -50
           \<and> (vec_x (position x) = None
                \<or> (\<exists>l \<in> set av - set rest. vec_x (position x) = lane_x (Some l)))"
      proof cases
        case 1
        then show ?thesis using ob obx by simp
      next
        case 2
        with p have a: "velocity_z x = speed (e_gameState g2)" "vec_z (position x) = -50"
          and b: "vec_x (position x) = None
                \<or> (\<exists>l \<in> set rest1 - set rest. vec_x (position x) = lane_x (Some l))"
          by simp_all
        from b r1(2) have "vec_x (position x) = None
                \<or> (\<exists>l \<in> set av - set rest. vec_x (position x) = lane_x (Some l))"
          by blast
        with a show ?thesis by (simp add: g2_def)
      qed
    qed
    from r r1 have sz: "distinct rest" "set rest \<subseteq> set av" "length av \<le> Suc n + length rest"
      "length (ob # newO) \<le> Suc n"
      by auto
    from eq sz px show ?thesis
      apply (rule_tac x = "ob # newO" in exI)
      apply (rule_tac x = sf in exI)
      apply (intro conjI)
      apply assumption+
      done
  qed
qed

lemma spawn_collectibles_enh_shape:
  "\<exists>new sf. spawn_collectibles_enh rnd k ls g
                = g\<lparr>e_collectibles := e_collectibles g @ new, e_surface := sf\<rparr>
     \<and> (\<forall>c \<in> set new. (\<exists>l \<in> set ls. vec_x (position c) = lane_x (Some l))
            \<and> velocity_z c = speed (e_gameState g) \<and> vec_z (position c) = -50)"
proof (induction ls arbitrary: k g)
  case Nil
  have "spawn_collectibles_enh rnd k [] g
          = g\<lparr>e_collectibles := e_collectibles g @ [], e_surface := e_surface g\<rparr>"
    by simp
  then show ?case
    apply (rule_tac x = "[]" in exI)
    apply (rule_tac x = "e_surface g" in exI)
    apply simp
    done
next
  case (Cons lane ls)
  show ?case
  proof (cases "rnd k < 0.7")
    case True
    define nc where "nc = new_DiwaliCollectible rnd (Suc (Suc k)) (Some lane) (-50) (pick_type (rnd (Suc k))) g"
    define col where "col = (fst nc)\<lparr>velocity_z := speed (e_gameState g)\<rparr>"
    define k1 where "k1 = fst (snd nc)"
    define g2 where "g2 = g\<lparr>e_collectibles := e_collectibles g @ [col],
        e_surface := scene_add (mesh col) ((e_surface g)\<lparr>nextMesh := Suc (nextMesh (e_surface g))\<rparr>)\<rparr>"
    have step: "spawn_collectibles_enh rnd k (lane # ls) g = spawn_collectibles_enh rnd k1 ls g2"
      using True
      by (simp add: Let_def case_prod_unfold nc_def col_def k1_def g2_def new_DiwaliCollectible_def)
    have col: "vec_x (position col) = lane_x (Some lane)" "velocity_z col = speed (e_gameState g)"
      "vec_z (position col) = -50"
      by (simp_all add: col_def nc_def new_DiwaliCollectible_def Let_def case_prod_unfold)
    from Cons.IH[of k1 g2] obtain new sf where
      r: "spawn_collectibles_enh rnd k1 ls g2
            = g2\<lparr>e_collectibles := e_collectibles g2 @ new, e_surface := sf\<rparr>"
      and p: "\<forall>c \<in> set new. (\<exists>l \<in> set ls. vec_x (position c) = lane_x (Some l))
            \<and> velocity_z c = speed (e_gameState g2) \<and> vec_z (position c) = -50"
      by blast
    have eq: "spawn_collectibles_enh rnd k (lane # ls) g
            = g\<lparr>e_collectibles := e_collectibles g @ (col # new), e_surface := sf\<rparr>"
      unfolding step r by (simp add: g2_def)
    have "\<forall>c \<in> set (col # new). (\<exists>l \<in> set (lane # ls). vec_x (position c) = lane_x (Some l))
            \<and> velocity_z c = speed (e_gameState g) \<and> vec_z (position c) = -50"
      using p col by (auto simp: g2_def)
    with eq show ?thesis by blast
  next
    case False
    then have step: "spawn_collectibles_enh rnd k (lane # ls) g = spawn_collectibles_enh rnd (Suc k) ls g"
      by simp
    from Cons.IH[of "Suc k" g] obtain new sf where
      r: "spawn_collectibles_enh rnd (Suc k) ls g
            = g\<lparr>e_collectibles := e_collectibles g @ new, e_surface := sf\<rparr>"
      and p: "\<forall>c \<in> set new. (\<exists>l \<in> set ls. vec_x (position c) = lane_x (Some l))
            \<and> velocity_z c = speed (e_gameState g) \<and> vec_z (position c) = -50"
      by blast
    have "\<forall>c \<in> set new. (\<exists>l \<in> set (lane # ls). vec_x (position c) = lane_x (Some l))
            \<and> velocity_z c = speed (e_gameState g) \<and> vec_z (position c) = -50"
      using p by auto
    with r step show ?thesis by metis
  qed
qed


lemma spawnObjects_enh_shape:
  "\<exists>newO newC sf. spawnObjects_enh rnd g
       = g\<lparr>e_obstacles := e_obstacles g @ newO, e_collectibles := e_collectibles g @ newC,
           e_surface := sf\<rparr>
     \<and> length newO \<le> 2
     \<and> (\<forall>ob \<in> set newO. velocity_z ob = speed (e_gameState g) \<and> vec_z (position ob) = -50)
     \<and> (\<forall>c \<in> set newC. velocity_z c = speed (e_gameState g) \<and> vec_z (position c) = -50)
     \<and> (\<forall>c \<in> set newC. vec_x (position c) \<in> Some ` set lanes)
     \<and> (\<forall>ob \<in> set newO. \<forall>c \<in> set newC. vec_x (position ob) \<noteq> vec_x (position c))
     \<and> (\<exists>x \<in> set lanes. \<forall>ob \<in> set newO. vec_x (position ob) \<noteq> Some x)"
proof -
  define n :: nat where "n = (if rnd 0 < 0.6 then 1 else 2)"
  define so where "so = spawn_obstacles_enh rnd 1 n [0, 1, 2] g"
  define k where "k = fst so"
  define rest where "rest = fst (snd so)"
  define g1 where "g1 = snd (snd so)"
  have n2: "n \<le> 2" by (simp add: n_def)
  have step: "spawnObjects_enh rnd g = spawn_collectibles_enh rnd k rest g1"
    by (simp add: spawnObjects_enh_def Let_def case_prod_unfold n_def so_def k_def rest_def g1_def)
  have so: "spawn_obstacles_enh rnd 1 n [0, 1, 2] g = (k, rest, g1)"
    by (simp add: so_def k_def rest_def g1_def)
  from spawn_obstacles_enh_shape[OF so] obtain newO sf1 where
    g1: "g1 = g\<lparr>e_obstacles := e_obstacles g @ newO, e_surface := sf1\<rparr>"
    and r: "set rest \<subseteq> {0, 1, 2}" "3 \<le> n + length rest" "length newO \<le> n"
    and po: "\<forall>ob \<in> set newO. velocity_z ob = speed (e_gameState g) \<and> vec_z (position ob) = -50
           \<and> (vec_x (position ob) = None
                \<or> (\<exists>l \<in> set [0, 1, 2] - set rest. vec_x (position ob) = lane_x (Some l)))"
    by auto
  from spawn_collectibles_enh_shape[of rnd k rest g1] obtain newC sf where
    res: "spawn_collectibles_enh rnd k rest g1
            = g1\<lparr>e_collectibles := e_collectibles g1 @ newC, e_surface := sf\<rparr>"
    and pc: "\<forall>c \<in> set newC. (\<exists>l \<in> set rest. vec_x (position c) = lane_x (Some l))
            \<and> velocity_z c = speed (e_gameState g1) \<and> vec_z (position c) = -50"
    by blast
  have eq: "spawnObjects_enh rnd g
       = g\<lparr>e_obstacles := e_obstacles g @ newO, e_collectibles := e_collectibles g @ newC,
           e_surface := sf\<rparr>"
    unfolding step res by (simp add: g1)
  have differ: "vec_x (position ob) \<noteq> lane_x (Some l)" if "ob \<in> set newO" "l \<in> set rest" for ob l
  proof -
    from that(2) r(1) have l3: "l \<in> {0, 1, 2}" by blast
    from po that(1) have "vec_x (position ob) = None
        \<or> (\<exists>l' \<in> set [0, 1, 2] - set rest. vec_x (position ob) = lane_x (Some l'))"
      by simp
    then show ?thesis
    proof
      assume "vec_x (position ob) = None"
      then show ?thesis using lane_x_Some[OF l3] by simp
    next
      assume "\<exists>l' \<in> set [0, 1, 2] - set rest. vec_x (position ob) = lane_x (Some l')"
      then obtain l' where m: "l' \<in> set [0, 1, 2] - set rest"
        and x: "vec_x (position ob) = lane_x (Some l')" by (rule bexE)
      from m have l'3: "l' \<in> {0, 1, 2}" by simp
      from m that(2) have "l' \<noteq> l" by blast
      then show ?thesis using x lane_x_Some[OF l3] lane_x_Some[OF l'3] by simp
    qed
  qed
  have cx: "\<forall>c \<in> set newC. vec_x (position c) \<in> Some ` set lanes"
  proof
    fix c assume "c \<in> set newC"
    with pc obtain l where l: "l \<in> set rest" "vec_x (position c) = lane_x (Some l)" by blast
    with r(1) have "l \<in> {0, 1, 2}" by blast
    from lane_x_Some[OF this] lane_x_in_lanes[OF this] l(2)
    show "vec_x (position c) \<in> Some ` set lanes" by simp
  qed
  have excl: "\<forall>ob \<in> set newO. \<forall>c \<in> set newC. vec_x (position ob) \<noteq> vec_x (position c)"
  proof (intro ballI)
    fix ob c assume ob: "ob \<in> set newO" and "c \<in> set newC"
    with pc obtain l where l: "l \<in> set rest" "vec_x (position c) = lane_x (Some l)" by blast
    from differ[OF ob l(1)] l(2) show "vec_x (position ob) \<noteq> vec_x (position c)" by simp
  qed
  have free: "\<exists>x \<in> set lanes. \<forall>ob \<in> set newO. vec_x (position ob) \<noteq> Some x"
  proof -
    from r(2) n2 have "length rest \<ge> 1" by simp
    then obtain l where l: "l \<in> set rest" by (cases rest) auto
    with r(1) have l3: "l \<in> {0, 1, 2}" by blast
    have "\<forall>ob \<in> set newO. vec_x (position ob) \<noteq> Some (2 * real_of_int l - 2)"
      using differ[OF _ l] lane_x_Some[OF l3] by simp
    with lane_x_in_lanes[OF l3] show ?thesis by blast
  qed
  from r(3) n2 have len: "length newO \<le> 2" by simp
  have vo: "\<forall>ob \<in> set newO. velocity_z ob = speed (e_gameState g) \<and> vec_z (position ob) = -50"
    using po by blast
  have vc: "\<forall>c \<in> set newC. velocity_z c = speed (e_gameState g) \<and> vec_z (position c) = -50"
    using pc by (simp add: g1)
  from eq len vo vc cx excl free show ?thesis
    apply (rule_tac x = newO in exI)
    apply (rule_tac x = newC in exI)
    apply (rule_tac x = sf in exI)
    apply (intro conjI)
    apply assumption+
    done
qed

text \<open>
  Claim C3. In every spawn tick of both games, no obstacle created in the tick shares its
  lane (its x coordinate) with a collectible created in the same tick, because each
  obstacle's lane is spliced out of the lanes the collectibles are drawn from; and at
  least one of the three lanes receives no obstacle in the tick.
\<close>

theorem spawn_lanes_exclusive:
  "(\<forall>ob \<in> set (spawned_obstacles rnd w). \<forall>c \<in> set (spawned_collectibles rnd w).
       vec_x (position ob) \<noteq> vec_x (position c))
   \<and> (\<exists>x \<in> set lanes. \<forall>ob \<in> set (spawned_obstacles rnd w). vec_x (position ob) \<noteq> Some x)
   \<and> (\<forall>ob \<in> set (spawned_obstacles_enh rnd g). \<forall>c \<in> set (spawned_collectibles_enh rnd g).
       vec_x (position ob) \<noteq> vec_x (position c))
   \<and> (\<exists>x \<in> set lanes. \<forall>ob \<in> set (spawned_obstacles_enh rnd g). vec_x (position ob) \<noteq> Some x)"
proof -
  from spawnObjects_shape[of rnd w] obtain newO newC sf where
    eq: "spawnObjects rnd w
       = w\<lparr>obstacles := obstacles w @ newO, collectibles := collectibles w @ newC, surface := sf\<rparr>"
    and p: "\<forall>ob \<in> set newO. \<forall>c \<in> set newC. vec_x (position ob) \<noteq> vec_x (position c)"
      "\<exists>x \<in> set lanes. \<forall>ob \<in> set newO. vec_x (position ob) \<noteq> Some x"
    by blast
  have m: "spawned_obstacles rnd w = newO" "spawned_collectibles rnd w = newC"
    by (simp_all add: spawned_obstacles_def spawned_collectibles_def eq)
  from spawnObjects_enh_shape[of rnd g] obtain newO' newC' sf' where
    eq': "spawnObjects_enh rnd g
       = g\<lparr>e_obstacles := e_obstacles g @ newO', e_collectibles := e_collectibles g @ newC',
           e_surface := sf'\<rparr>"
    and p': "\<forall>ob \<in> set newO'. \<forall>c \<in> set newC'. vec_x (position ob) \<noteq> vec_x (position c)"
      "\<exists>x \<in> set lanes. \<forall>ob \<in> set newO'. vec_x (position ob) \<noteq> Some x"
    by blast
  have e: "spawned_obstacles_enh rnd g = newO'" "spawned_collectibles_enh rnd g = newC'"
    by (simp_all add: spawned_obstacles_enh_def spawned_collectibles_enh_def eq')
  from p p' show ?thesis unfolding m e by blast
qed

theorem spawn_lanes_exclusive_witness:
  "map (\<lambda>e. vec_x (position e)) (spawned_obstacles example_rnd (startGame init_World)) = [Some 0]
   \<and> map (\<lambda>e. vec_x (position e)) (spawned_collectibles example_rnd (startGame init_World))
       = [Some (-2), Some 2]
   \<and> map (\<lambda>e. vec_x (position e))
        (spawned_obstacles_enh example_rnd (startGame_enh new_EnhancedRunnerGame)) = [Some 0]
   \<and> map (\<lambda>e. (vec_x (position e), pickup_type e))
        (spawned_collectibles_enh example_rnd (startGame_enh new_EnhancedRunnerGame))
       = [(Some (-2), Some Diya), (Some 2, Some Diya)]"
  using spawn_lanes_exclusive [of example_rnd "startGame init_World"
          "startGame_enh new_EnhancedRunnerGame"]
  by (simp add: spawned_obstacles_def spawned_collectibles_def spawnObjects_def
        spawned_obstacles_enh_def spawned_collectibles_enh_def spawnObjects_enh_def
        example_rnd_def startGame_def init_World_def startGame_enh_def
        new_EnhancedRunnerGame_def clearGameObjects_def pick_type_def types_def
        splice1_def remove_at_def array_get_def new_Obstacle_def new_Collectible_def
        new_DiwaliObstacle_def new_DiwaliCollectible_def lane_x_def lanes_def scene_add_def
        Let_def)

section \<open>Lives and the end of the game\<close>

subsection \<open>main.ts\<close>

lemma length_remove_at: "i < length xs \<Longrightarrow> length (remove_at i xs) = length xs - 1"
  by (simp add: remove_at_def min_def)

lemma array_get_Some: "i < length xs \<Longrightarrow> array_get xs (int i) = Some (xs ! i)"
  by (simp add: array_get_def)

lemma array_get_None: "length xs \<le> i \<Longrightarrow> array_get xs (int i) = None"
  by (simp add: array_get_def)

lemma check_obstacles_returns:
  "i \<le> length (obstacles w) \<Longrightarrow> \<exists>b w'. check_obstacles i w = Inr (b, w')"
proof (induction i arbitrary: w)
  case 0
  have "check_obstacles 0 w = Inr (False, w)" by simp
  then show ?case by blast
next
  case (Suc i)
  then have lt: "i < length (obstacles w)" by simp
  let ?ob = "obstacles w ! i"
  show ?case
  proof (cases "num_lt (distanceTo (position (player w)) (position ?ob)) 1.0")
    case False
    from Suc.IH[of w] lt obtain b w' where "check_obstacles i w = Inr (b, w')" by auto
    with False lt show ?thesis by (simp add: array_get_Some)
  next
    case True
    define w4 where "w4 = w\<lparr>gameState := (gameState w)\<lparr>lives := lives (gameState w) - 1\<rparr>,
        healthBar := takeDamage 1 (healthBar w),
        surface := Entity_dispose ?ob (surface w),
        obstacles := remove_at i (obstacles w)\<rparr>"
    have len: "i \<le> length (obstacles w4)" using lt by (simp add: w4_def length_remove_at)
    from Suc.IH[OF len] obtain b w' where r: "check_obstacles i w4 = Inr (b, w')" by auto
    have "check_obstacles (Suc i) w =
        (if lives (gameState w4) \<le> 0 then Inr (True, gameOver_fn w4) else check_obstacles i w4)"
      using True lt by (simp add: array_get_Some Let_def w4_def)
    with r show ?thesis by auto
  qed
qed

lemma check_obstacles_lives:
  "check_obstacles i w = Inr (b, w') \<Longrightarrow>
     lives (gameState w') \<le> lives (gameState w)
     \<and> (1 \<le> lives (gameState w) \<longrightarrow> 0 \<le> lives (gameState w'))
     \<and> (b \<longrightarrow> gameOver (gameState w') \<and> \<not> isPlaying (gameState w')
              \<and> lives (gameState w') \<le> 0)
     \<and> (\<not> b \<longrightarrow> isPlaying (gameState w') = isPlaying (gameState w)
              \<and> gameOver (gameState w') = gameOver (gameState w)
              \<and> (1 \<le> lives (gameState w) \<longrightarrow> 1 \<le> lives (gameState w')))"
proof (induction i arbitrary: w)
  case 0
  then show ?case by auto
next
  case (Suc i)
  from Suc.prems obtain ob where g: "array_get (obstacles w) (int i) = Some ob"
    by (cases "array_get (obstacles w) (int i)") auto
  show ?case
  proof (cases "num_lt (distanceTo (position (player w)) (position ob)) 1.0")
    case False
    with Suc.prems g have "check_obstacles i w = Inr (b, w')" by simp
    from Suc.IH[OF this] show ?thesis .
  next
    case True
    define w4 where "w4 = w\<lparr>gameState := (gameState w)\<lparr>lives := lives (gameState w) - 1\<rparr>,
        healthBar := takeDamage 1 (healthBar w),
        surface := Entity_dispose ob (surface w),
        obstacles := remove_at i (obstacles w)\<rparr>"
    have w4: "lives (gameState w4) = lives (gameState w) - 1"
      "isPlaying (gameState w4) = isPlaying (gameState w)"
      "gameOver (gameState w4) = gameOver (gameState w)"
      by (simp_all add: w4_def)
    have eq: "check_obstacles (Suc i) w =
        (if lives (gameState w4) \<le> 0 then Inr (True, gameOver_fn w4) else check_obstacles i w4)"
      using True g by (simp add: Let_def w4_def)
    show ?thesis
    proof (cases "lives (gameState w4) \<le> 0")
      case True
      with eq Suc.prems have "b" "w' = gameOver_fn w4" by simp_all
      with True w4 show ?thesis by (simp add: gameOver_fn_def)
    next
      case False
      with eq Suc.prems have "check_obstacles i w4 = Inr (b, w')" by simp
      from Suc.IH[OF this] False w4 show ?thesis by auto
    qed
  qed
qed

lemma check_collectibles_returns:
  "i \<le> length (collectibles w) \<Longrightarrow>
     \<exists>w'. check_collectibles i w = Inr w'
       \<and> lives (gameState w') = lives (gameState w)
       \<and> isPlaying (gameState w') = isPlaying (gameState w)
       \<and> gameOver (gameState w') = gameOver (gameState w)"
proof (induction i arbitrary: w)
  case 0
  then show ?case by simp
next
  case (Suc i)
  then have lt: "i < length (collectibles w)" by simp
  let ?c = "collectibles w ! i"
  show ?case
  proof (cases "num_lt (distanceTo (position (player w)) (position ?c)) 0.8")
    case False
    from Suc.IH[of w] lt False show ?thesis by (simp add: array_get_Some)
  next
    case True
    define w3 where "w3 = w\<lparr>gameState := (gameState w)\<lparr>score := score (gameState w) + 10\<rparr>,
        surface := Entity_dispose ?c (surface w),
        collectibles := remove_at i (collectibles w)\<rparr>"
    have len: "i \<le> length (collectibles w3)" using lt by (simp add: w3_def length_remove_at)
    have "check_collectibles (Suc i) w = check_collectibles i w3"
      using True lt by (simp add: array_get_Some Let_def w3_def)
    with Suc.IH[OF len] show ?thesis by (simp add: w3_def)
  qed
qed

lemma checkCollisions_lives:
  "\<exists>w'. checkCollisions w = Inr w'
     \<and> lives (gameState w') \<le> lives (gameState w)
     \<and> (1 \<le> lives (gameState w) \<longrightarrow> 0 \<le> lives (gameState w')
           \<and> (isPlaying (gameState w') \<longrightarrow> 1 \<le> lives (gameState w'))
           \<and> (\<not> gameOver (gameState w) \<and> gameOver (gameState w') \<longrightarrow> lives (gameState w') = 0))
     \<and> (isPlaying (gameState w') \<longrightarrow> isPlaying (gameState w))"
proof -
  from check_obstacles_returns[of "length (obstacles w)" w] obtain b w1
    where r: "check_obstacles (length (obstacles w)) w = Inr (b, w1)" by auto
  note l = check_obstacles_lives[OF r]
  show ?thesis
  proof (cases b)
    case True
    with r have "checkCollisions w = Inr w1" by (simp add: checkCollisions_def)
    with l True show ?thesis by auto
  next
    case False
    from check_collectibles_returns[of "length (collectibles w1)" w1] obtain w2
      where c: "check_collectibles (length (collectibles w1)) w1 = Inr w2"
        "lives (gameState w2) = lives (gameState w1)"
        "isPlaying (gameState w2) = isPlaying (gameState w1)"
        "gameOver (gameState w2) = gameOver (gameState w1)" by auto
    from r False c(1) have "checkCollisions w = Inr w2" by (simp add: checkCollisions_def)
    with l False c show ?thesis by auto
  qed
qed

lemma update_obstacles_shape:
  "\<exists>obs sf. update_obstacles deltaTime index w = w\<lparr>obstacles := obs, surface := sf\<rparr>"
proof (induction deltaTime index w rule: update_obstacles.induct)
  case (1 deltaTime index w)
  show ?case
  proof (cases "index < length (obstacles w)")
    case False
    then have "update_obstacles deltaTime index w = w\<lparr>obstacles := obstacles w, surface := surface w\<rparr>"
      by simp
    then show ?thesis by blast
  next
    case True
    define ob where "ob = Entity_update deltaTime (obstacles w ! index)"
    define w1 where "w1 = w\<lparr>obstacles := (obstacles w)[index := ob]\<rparr>"
    show ?thesis
    proof (cases "vec_z (position ob) > 10")
      case T2: True
      define w2 where "w2 = w1\<lparr>surface := Entity_dispose ob (surface w1),
                       obstacles := remove_at index (obstacles w1)\<rparr>"
      from "1.IH"(1)[OF True ob_def w1_def T2] obtain obs sf where
        "update_obstacles deltaTime (Suc index) w2 = w2\<lparr>obstacles := obs, surface := sf\<rparr>"
        unfolding w2_def by blast
      moreover have "update_obstacles deltaTime index w = update_obstacles deltaTime (Suc index) w2"
        using True T2 by (subst update_obstacles.simps) (simp add: Let_def ob_def w1_def w2_def)
      ultimately have "update_obstacles deltaTime index w = w\<lparr>obstacles := obs, surface := sf\<rparr>"
        by (simp add: w2_def w1_def)
      then show ?thesis by blast
    next
      case F2: False
      from "1.IH"(2)[OF True ob_def w1_def F2] obtain obs sf where
        "update_obstacles deltaTime (Suc index) w1 = w1\<lparr>obstacles := obs, surface := sf\<rparr>"
        by blast
      moreover have "update_obstacles deltaTime index w = update_obstacles deltaTime (Suc index) w1"
        using True F2 by (subst update_obstacles.simps) (simp add: Let_def ob_def w1_def)
      ultimately have "update_obstacles deltaTime index w = w\<lparr>obstacles := obs, surface := sf\<rparr>"
        by (simp add: w1_def)
      then show ?thesis by blast
    qed
  qed
qed

lemma update_collectibles_shape:
  "\<exists>cols sf. update_collectibles deltaTime index w = w\<lparr>collectibles := cols, surface := sf\<rparr>"
proof (induction deltaTime index w rule: update_collectibles.induct)
  case (1 deltaTime index w)
  show ?case
  proof (cases "index < length (collectibles w)")
    case False
    then have "update_collectibles deltaTime index w
        = w\<lparr>collectibles := collectibles w, surface := surface w\<rparr>"
      by simp
    then show ?thesis by blast
  next
    case True
    define c where "c = Entity_update deltaTime (collectibles w ! index)"
    define w1 where "w1 = w\<lparr>collectibles := (collectibles w)[index := c]\<rparr>"
    show ?thesis
    proof (cases "vec_z (position c) > 10")
      case T2: True
      define w2 where "w2 = w1\<lparr>surface := Entity_dispose c (surface w1),
                       collectibles := remove_at index (collectibles w1)\<rparr>"
      from "1.IH"(1)[OF True c_def w1_def T2] obtain cols sf where
        "update_collectibles deltaTime (Suc index) w2 = w2\<lparr>collectibles := cols, surface := sf\<rparr>"
        unfolding w2_def by blast
      moreover have "update_collectibles deltaTime index w = update_collectibles deltaTime (Suc index) w2"
        using True T2 by (subst update_collectibles.simps) (simp add: Let_def c_def w1_def w2_def)
      ultimately have "update_collectibles deltaTime index w = w\<lparr>collectibles := cols, surface := sf\<rparr>"
        by (simp add: w2_def w1_def)
      then show ?thesis by blast
    next
      case F2: False
      from "1.IH"(2)[OF True c_def w1_def F2] obtain cols sf where
        "update_collectibles deltaTime (Suc index) w1 = w1\<lparr>collectibles := cols, surface := sf\<rparr>"
        by blast
      moreover have "update_collectibles deltaTime index w = update_collectibles deltaTime (Suc index) w1"
        using True F2 by (subst update_collectibles.simps) (simp add: Let_def c_def w1_def)
      ultimately have "update_collectibles deltaTime index w = w\<lparr>collectibles := cols, surface := sf\<rparr>"
        by (simp add: w1_def)
      then show ?thesis by blast
    qed
  qed
qed

lemma spawn_step_gameState:
  "lives (gameState (spawn_step deltaTime rnd w)) = lives (gameState w)
   \<and> isPlaying (gameState (spawn_step deltaTime rnd w)) = isPlaying (gameState w)
   \<and> gameOver (gameState (spawn_step deltaTime rnd w)) = gameOver (gameState w)"
proof -
  obtain newO newC sf where
    "spawnObjects rnd (w\<lparr>spawnTimer := spawnTimer w + deltaTime\<rparr>)
       = (w\<lparr>spawnTimer := spawnTimer w + deltaTime\<rparr>)
           \<lparr>obstacles := obstacles (w\<lparr>spawnTimer := spawnTimer w + deltaTime\<rparr>) @ newO,
            collectibles := collectibles (w\<lparr>spawnTimer := spawnTimer w + deltaTime\<rparr>) @ newC,
            surface := sf\<rparr>"
    using spawnObjects_shape[of rnd "w\<lparr>spawnTimer := spawnTimer w + deltaTime\<rparr>"] by blast
  then show ?thesis by (simp add: spawn_step_def Let_def)
qed

lemma frame_lives:
  "\<exists>w'. frame deltaTime rnd w = Inr w'
     \<and> lives (gameState w') \<le> lives (gameState w)
     \<and> (1 \<le> lives (gameState w) \<longrightarrow> 0 \<le> lives (gameState w')
           \<and> (isPlaying (gameState w') \<longrightarrow> 1 \<le> lives (gameState w'))
           \<and> (\<not> gameOver (gameState w) \<and> gameOver (gameState w') \<longrightarrow> lives (gameState w') = 0))
     \<and> (isPlaying (gameState w') \<longrightarrow> isPlaying (gameState w))"
proof -
  define w1 where "w1 = w\<lparr>player := Player_update deltaTime (player w)\<rparr>"
  define w2 where "w2 = update_obstacles deltaTime 0 w1"
  define w3 where "w3 = update_collectibles deltaTime 0 w2"
  define w4 where "w4 = spawn_step deltaTime rnd w3"
  have g2: "gameState w2 = gameState w"
    using update_obstacles_shape[of deltaTime 0 w1] by (auto simp: w2_def w1_def)
  have g3: "gameState w3 = gameState w"
    using update_collectibles_shape[of deltaTime 0 w2] g2 by (auto simp: w3_def)
  have g4: "lives (gameState w4) = lives (gameState w)"
    "isPlaying (gameState w4) = isPlaying (gameState w)"
    "gameOver (gameState w4) = gameOver (gameState w)"
    using spawn_step_gameState[of deltaTime rnd w3] g3 by (simp_all add: w4_def)
  from checkCollisions_lives[of w4] obtain w5 where
    c: "checkCollisions w4 = Inr w5"
    and l: "lives (gameState w5) \<le> lives (gameState w4)"
      "1 \<le> lives (gameState w4) \<longrightarrow> 0 \<le> lives (gameState w5)
           \<and> (isPlaying (gameState w5) \<longrightarrow> 1 \<le> lives (gameState w5))
           \<and> (\<not> gameOver (gameState w4) \<and> gameOver (gameState w5) \<longrightarrow> lives (gameState w5) = 0)"
      "isPlaying (gameState w5) \<longrightarrow> isPlaying (gameState w4)"
    by blast
  have "frame deltaTime rnd w
      = (case checkCollisions w4 of Inl e \<Rightarrow> Inl e
         | Inr w5 \<Rightarrow> Inr (w5\<lparr>gameState := (gameState w5)\<lparr>score := score (gameState w5) + \<lfloor>deltaTime * 5\<rfloor>\<rparr>\<rparr>))"
    unfolding frame_def Let_def w4_def w3_def w2_def w1_def ..
  then have "frame deltaTime rnd w
      = Inr (w5\<lparr>gameState := (gameState w5)\<lparr>score := score (gameState w5) + \<lfloor>deltaTime * 5\<rfloor>\<rparr>\<rparr>)"
    by (simp add: c)
  moreover have "lives (gameState w5) \<le> lives (gameState w)" using l(1) g4 by simp
  moreover have "1 \<le> lives (gameState w) \<longrightarrow> 0 \<le> lives (gameState w5)
           \<and> (isPlaying (gameState w5) \<longrightarrow> 1 \<le> lives (gameState w5))
           \<and> (\<not> gameOver (gameState w) \<and> gameOver (gameState w5) \<longrightarrow> lives (gameState w5) = 0)"
    using l(2) g4 by simp
  moreover have "isPlaying (gameState w5) \<longrightarrow> isPlaying (gameState w)" using l(3) g4 by simp
  ultimately show ?thesis by simp
qed


lemma animate_lives:
  "\<exists>w'. animate currentTime rnd w = Inr w'
     \<and> lives (gameState w') \<le> lives (gameState w)
     \<and> (lives_ok (gameState w) \<longrightarrow> lives_ok (gameState w')
           \<and> (\<not> gameOver (gameState w) \<and> gameOver (gameState w') \<longrightarrow> lives (gameState w') = 0))"
proof (cases "isPlaying (gameState w) \<and> \<not> gameOver (gameState w)")
  case False
  then have "animate currentTime rnd w = Inr (w\<lparr>lastTime := currentTime\<rparr>)"
    by (auto simp: animate_def Let_def)
  then show ?thesis by simp
next
  case True
  from frame_lives[of "(currentTime - lastTime w) / 1000" rnd "w\<lparr>lastTime := currentTime\<rparr>"]
  obtain w' where f: "frame ((currentTime - lastTime w) / 1000) rnd (w\<lparr>lastTime := currentTime\<rparr>) = Inr w'"
    and l: "lives (gameState w') \<le> lives (gameState w)"
      "1 \<le> lives (gameState w) \<longrightarrow> 0 \<le> lives (gameState w')
           \<and> (isPlaying (gameState w') \<longrightarrow> 1 \<le> lives (gameState w'))
           \<and> (\<not> gameOver (gameState w) \<and> gameOver (gameState w') \<longrightarrow> lives (gameState w') = 0)"
    by auto
  from True f have "animate currentTime rnd w = Inr w'" by (simp add: animate_def Let_def)
  with l True show ?thesis by (auto simp: lives_ok_def)
qed

lemma handle_lives_ok:
  "lives_ok (gameState w) \<Longrightarrow> lives_ok (gameState (state_of (handle e w)))"
proof (cases e)
  case StartClick
  then show ?thesis by (simp add: state_of_def startGame_def Let_def lives_ok_def)
next
  case (Input c)
  assume "lives_ok (gameState w)"
  with Input show ?thesis by (simp add: state_of_def)
next
  case (Frame t rnd)
  assume ok: "lives_ok (gameState w)"
  from animate_lives[of t rnd w] ok Frame show ?thesis by (auto simp: state_of_def)
qed

lemma reachable_lives_ok: "reachable w \<Longrightarrow> lives_ok (gameState w)"
proof (induction rule: reachable.induct)
  case reachable_init
  show ?case by (simp add: init_World_def lives_ok_def)
next
  case (reachable_step w e)
  then show ?case by (simp add: handle_lives_ok)
qed

subsection \<open>The enhanced game\<close>

lemma stopGame_gameState:
  "lives (e_gameState (stopGame g)) = lives (e_gameState g)
   \<and> \<not> isPlaying (e_gameState (stopGame g)) \<and> gameOver (e_gameState (stopGame g))
   \<and> e_obstacles (stopGame g) = [] \<and> e_collectibles (stopGame g) = []
   \<and> e_player (stopGame g) = e_player g"
  by (simp add: stopGame_def clearGameObjects_def Let_def)

lemma check_obstacles_enh_mono:
  "lives (e_gameState (state_of (check_obstacles_enh i g))) \<le> lives (e_gameState g)"
proof (induction i arbitrary: g)
  case 0
  show ?case by (simp add: state_of_def)
next
  case (Suc i)
  show ?case
  proof (cases "array_get (e_obstacles g) (int i)")
    case None
    then show ?thesis by (simp add: state_of_def)
  next
    case (Some ob)
    show ?thesis
    proof (cases "num_lt (distanceTo (position (e_player g)) (position ob)) 1")
      case False
      with Some Suc.IH[of g] show ?thesis by simp
    next
      case True
      define g3 where "g3 = g\<lparr>e_gameState := (e_gameState g)\<lparr>lives := lives (e_gameState g) - 1\<rparr>,
          e_surface := release (mesh ob) (scene_remove (mesh ob) (e_surface g)),
          e_obstacles := remove_at i (e_obstacles g)\<rparr>"
      define g4 where "g4 = (if lives (e_gameState g3) \<le> 0 then stopGame g3 else g3)"
      have eq: "check_obstacles_enh (Suc i) g = check_obstacles_enh i g4"
        using True Some by (simp add: Let_def g3_def g4_def)
      have "lives (e_gameState g4) = lives (e_gameState g) - 1"
        by (simp add: g4_def stopGame_gameState) (simp add: g3_def)
      with Suc.IH[of g4] eq show ?thesis by simp
    qed
  qed
qed

lemma check_obstacles_enh_inv:
  assumes "1 \<le> lives (e_gameState g)
      \<or> (lives (e_gameState g) = 0 \<and> e_obstacles g = [] \<and> \<not> isPlaying (e_gameState g)
           \<and> gameOver (e_gameState g))"
  shows "(1 \<le> lives (e_gameState (state_of (check_obstacles_enh i g)))
          \<and> isPlaying (e_gameState (state_of (check_obstacles_enh i g))) = isPlaying (e_gameState g)
          \<and> gameOver (e_gameState (state_of (check_obstacles_enh i g))) = gameOver (e_gameState g))
      \<or> (lives (e_gameState (state_of (check_obstacles_enh i g))) = 0
          \<and> e_obstacles (state_of (check_obstacles_enh i g)) = []
          \<and> \<not> isPlaying (e_gameState (state_of (check_obstacles_enh i g)))
          \<and> gameOver (e_gameState (state_of (check_obstacles_enh i g))))"
  using assms
proof (induction i arbitrary: g)
  case 0
  then show ?case by (simp add: state_of_def)
next
  case (Suc i)
  show ?case
  proof (cases "array_get (e_obstacles g) (int i)")
    case None
    with Suc.prems show ?thesis by (simp add: state_of_def)
  next
    case (Some ob)
    then have ne: "e_obstacles g \<noteq> []" by (auto simp: array_get_def split: if_splits)
    with Suc.prems have l1: "1 \<le> lives (e_gameState g)" by blast
    show ?thesis
    proof (cases "num_lt (distanceTo (position (e_player g)) (position ob)) 1")
      case False
      with Some Suc.IH[OF Suc.prems] show ?thesis by simp
    next
      case True
      define g3 where "g3 = g\<lparr>e_gameState := (e_gameState g)\<lparr>lives := lives (e_gameState g) - 1\<rparr>,
          e_surface := release (mesh ob) (scene_remove (mesh ob) (e_surface g)),
          e_obstacles := remove_at i (e_obstacles g)\<rparr>"
      define g4 where "g4 = (if lives (e_gameState g3) \<le> 0 then stopGame g3 else g3)"
      have eq: "check_obstacles_enh (Suc i) g = check_obstacles_enh i g4"
        using True Some by (simp add: Let_def g3_def g4_def)
      have g3: "lives (e_gameState g3) = lives (e_gameState g) - 1"
        "isPlaying (e_gameState g3) = isPlaying (e_gameState g)"
        "gameOver (e_gameState g3) = gameOver (e_gameState g)"
        by (simp_all add: g3_def)
      show ?thesis
      proof (cases "lives (e_gameState g3) \<le> 0")
        case T: True
        with g3 l1 have z: "lives (e_gameState g3) = 0" by simp
        have g4: "g4 = stopGame g3" using T by (simp add: g4_def)
        have inv4: "1 \<le> lives (e_gameState g4)
          \<or> (lives (e_gameState g4) = 0 \<and> e_obstacles g4 = [] \<and> \<not> isPlaying (e_gameState g4)
               \<and> gameOver (e_gameState g4))"
          unfolding g4 using z stopGame_gameState[of g3] by simp
        have l4: "lives (e_gameState g4) = 0"
          unfolding g4 using z stopGame_gameState[of g3] by simp
        with check_obstacles_enh_mono[of i g4]
        have le: "lives (e_gameState (state_of (check_obstacles_enh i g4))) \<le> 0" by simp
        from Suc.IH[OF inv4] le show ?thesis
          unfolding eq by auto
      next
        case F: False
        then have g4: "g4 = g3" by (simp add: g4_def)
        from F have inv4: "1 \<le> lives (e_gameState g4)
          \<or> (lives (e_gameState g4) = 0 \<and> e_obstacles g4 = [] \<and> \<not> isPlaying (e_gameState g4)
               \<and> gameOver (e_gameState g4))"
          unfolding g4 by simp
        from Suc.IH[OF inv4] show ?thesis unfolding eq g4 using g3 by simp
      qed
    qed
  qed
qed

lemma check_collectibles_enh_gameState:
  "lives (e_gameState (state_of (check_collectibles_enh i g))) = lives (e_gameState g)
   \<and> isPlaying (e_gameState (state_of (check_collectibles_enh i g))) = isPlaying (e_gameState g)
   \<and> gameOver (e_gameState (state_of (check_collectibles_enh i g))) = gameOver (e_gameState g)"
proof (induction i arbitrary: g)
  case 0
  show ?case by (simp add: state_of_def)
next
  case (Suc i)
  show ?case
  proof (cases "array_get (e_collectibles g) (int i)")
    case None
    then show ?thesis by (simp add: state_of_def)
  next
    case (Some c)
    show ?thesis
    proof (cases "num_lt (distanceTo (position (e_player g)) (position c)) 0.8")
      case False
      with Some Suc.IH[of g] show ?thesis by simp
    next
      case True
      define g3 where "g3 = g\<lparr>e_gameState := (e_gameState g)\<lparr>score := score (e_gameState g) + getValue c\<rparr>,
          e_surface := release (mesh c) (scene_remove (mesh c) (e_surface g)),
          e_collectibles := remove_at i (e_collectibles g)\<rparr>"
      have eq: "check_collectibles_enh (Suc i) g = check_collectibles_enh i g3"
        using True Some by (simp add: Let_def g3_def)
      from Suc.IH[of g3] show ?thesis unfolding eq by (simp add: g3_def)
    qed
  qed
qed

lemma cull_obstacles_state:
  "\<exists>obs sf. state_of (cull_obstacles deltaTime i g) = g\<lparr>e_obstacles := obs, e_surface := sf\<rparr>"
proof (induction i arbitrary: g)
  case 0
  have "state_of (cull_obstacles deltaTime 0 g) = g\<lparr>e_obstacles := e_obstacles g, e_surface := e_surface g\<rparr>"
    by (simp add: state_of_def)
  then show ?case by blast
next
  case (Suc i)
  show ?case
  proof (cases "array_get (e_obstacles g) (int i)")
    case None
    then have "state_of (cull_obstacles deltaTime (Suc i) g)
        = g\<lparr>e_obstacles := e_obstacles g, e_surface := e_surface g\<rparr>"
      by (simp add: state_of_def)
    then show ?thesis by blast
  next
    case (Some ob0)
    define ob where "ob = DiwaliObstacle_update deltaTime ob0"
    define g1 where "g1 = g\<lparr>e_obstacles := (e_obstacles g)[i := ob]\<rparr>"
    define g2 where "g2 = (if vec_z (position ob) > 10
        then g1\<lparr>e_surface := release (mesh ob) (scene_remove (mesh ob) (e_surface g1)),
                e_obstacles := remove_at i (e_obstacles g1)\<rparr>
        else g1)"
    have eq: "cull_obstacles deltaTime (Suc i) g = cull_obstacles deltaTime i g2"
      using Some by (simp add: Let_def ob_def g1_def g2_def)
    from Suc.IH[of g2] obtain obs sf where
      "state_of (cull_obstacles deltaTime i g2) = g2\<lparr>e_obstacles := obs, e_surface := sf\<rparr>" by blast
    then have "state_of (cull_obstacles deltaTime (Suc i) g) = g\<lparr>e_obstacles := obs, e_surface := sf\<rparr>"
      unfolding eq by (simp add: g2_def g1_def)
    then show ?thesis by blast
  qed
qed

lemma cull_collectibles_state:
  "\<exists>cols sf. state_of (cull_collectibles now deltaTime i g)
      = g\<lparr>e_collectibles := cols, e_surface := sf\<rparr>"
proof (induction i arbitrary: g)
  case 0
  have "state_of (cull_collectibles now deltaTime 0 g)
      = g\<lparr>e_collectibles := e_collectibles g, e_surface := e_surface g\<rparr>"
    by (simp add: state_of_def)
  then show ?case by blast
next
  case (Suc i)
  show ?case
  proof (cases "array_get (e_collectibles g) (int i)")
    case None
    then have "state_of (cull_collectibles now deltaTime (Suc i) g)
        = g\<lparr>e_collectibles := e_collectibles g, e_surface := e_surface g\<rparr>"
      by (simp add: state_of_def)
    then show ?thesis by blast
  next
    case (Some c0)
    define c where "c = DiwaliCollectible_update (now i) deltaTime c0"
    define g1 where "g1 = g\<lparr>e_collectibles := (e_collectibles g)[i := c]\<rparr>"
    define g2 where "g2 = (if vec_z (position c) > 10
        then g1\<lparr>e_surface := release (mesh c) (scene_remove (mesh c) (e_surface g1)),
                e_collectibles := remove_at i (e_collectibles g1)\<rparr>
        else g1)"
    have eq: "cull_collectibles now deltaTime (Suc i) g = cull_collectibles now deltaTime i g2"
      using Some by (simp add: Let_def c_def g1_def g2_def)
    from Suc.IH[of g2] obtain cols sf where
      "state_of (cull_collectibles now deltaTime i g2) = g2\<lparr>e_collectibles := cols, e_surface := sf\<rparr>"
      by blast
    then have "state_of (cull_collectibles now deltaTime (Suc i) g)
        = g\<lparr>e_collectibles := cols, e_surface := sf\<rparr>"
      unfolding eq by (simp add: g2_def g1_def)
    then show ?thesis by blast
  qed
qed

lemma spawn_step_enh_gameState:
  "lives (e_gameState (spawn_step_enh deltaTime rnd g)) = lives (e_gameState g)
   \<and> isPlaying (e_gameState (spawn_step_enh deltaTime rnd g)) = isPlaying (e_gameState g)
   \<and> gameOver (e_gameState (spawn_step_enh deltaTime rnd g)) = gameOver (e_gameState g)"
proof -
  define g1 where "g1 = g\<lparr>e_spawnTimer := e_spawnTimer g + deltaTime\<rparr>"
  obtain newO newC sf where
    "spawnObjects_enh rnd g1
       = g1\<lparr>e_obstacles := e_obstacles g1 @ newO, e_collectibles := e_collectibles g1 @ newC,
            e_surface := sf\<rparr>"
    using spawnObjects_enh_shape[of rnd g1] by blast
  then show ?thesis by (simp add: spawn_step_enh_def Let_def g1_def)
qed

lemma checkCollisions_enh_lives:
  "lives (e_gameState (state_of (checkCollisions_enh g))) \<le> lives (e_gameState g)
   \<and> (1 \<le> lives (e_gameState g) \<longrightarrow>
        (1 \<le> lives (e_gameState (state_of (checkCollisions_enh g)))
          \<and> isPlaying (e_gameState (state_of (checkCollisions_enh g))) = isPlaying (e_gameState g)
          \<and> gameOver (e_gameState (state_of (checkCollisions_enh g))) = gameOver (e_gameState g))
      \<or> (lives (e_gameState (state_of (checkCollisions_enh g))) = 0
          \<and> \<not> isPlaying (e_gameState (state_of (checkCollisions_enh g)))
          \<and> gameOver (e_gameState (state_of (checkCollisions_enh g)))))"
proof -
  define r where "r = check_obstacles_enh (length (e_obstacles g)) g"
  define s where "s = state_of r"
  have m: "lives (e_gameState s) \<le> lives (e_gameState g)"
    unfolding s_def r_def by (rule check_obstacles_enh_mono)
  have i: "1 \<le> lives (e_gameState g) \<longrightarrow>
      (1 \<le> lives (e_gameState s) \<and> isPlaying (e_gameState s) = isPlaying (e_gameState g)
          \<and> gameOver (e_gameState s) = gameOver (e_gameState g))
      \<or> (lives (e_gameState s) = 0 \<and> \<not> isPlaying (e_gameState s) \<and> gameOver (e_gameState s))"
    unfolding s_def r_def
    using check_obstacles_enh_inv[of g "length (e_obstacles g)"] by blast
  show ?thesis
  proof (cases r)
    case (Inl es)
    then have "state_of (checkCollisions_enh g) = s"
      by (simp add: checkCollisions_enh_def r_def[symmetric] s_def state_of_def)
    with m i show ?thesis by simp
  next
    case (Inr g1)
    then have s: "s = g1" by (simp add: s_def state_of_def)
    from Inr have "state_of (checkCollisions_enh g)
        = state_of (check_collectibles_enh (length (e_collectibles g1)) g1)"
      by (simp add: checkCollisions_enh_def r_def[symmetric])
    with check_collectibles_enh_gameState[of "length (e_collectibles g1)" g1] m i s
    show ?thesis by simp
  qed
qed

lemma update_lives:
  "lives (e_gameState (state_of (update deltaTime rnd now g))) \<le> lives (e_gameState g)
   \<and> (lives_ok (e_gameState g) \<longrightarrow>
        lives_ok (e_gameState (state_of (update deltaTime rnd now g)))
        \<and> (\<not> gameOver (e_gameState g) \<and> gameOver (e_gameState (state_of (update deltaTime rnd now g)))
             \<longrightarrow> lives (e_gameState (state_of (update deltaTime rnd now g))) = 0))"
proof (cases "\<not> isPlaying (e_gameState g) \<or> isPaused (e_gameState g)")
  case True
  then have "update deltaTime rnd now g = Inr g" by (simp add: update_def)
  then show ?thesis by (simp add: state_of_def)
next
  case False
  define g1 where "g1 = g\<lparr>e_player := EnhancedPlayer_update deltaTime (e_player g)\<rparr>"
  define r2 where "r2 = cull_obstacles deltaTime (length (e_obstacles g1)) g1"
  define s2 where "s2 = state_of r2"
  define r3 where "r3 = cull_collectibles now deltaTime (length (e_collectibles s2)) s2"
  define s3 where "s3 = state_of r3"
  define s4 where "s4 = spawn_step_enh deltaTime rnd s3"
  define r5 where "r5 = checkCollisions_enh s4"
  define s5 where "s5 = state_of r5"
  define s6 where "s6 = s5\<lparr>e_gameState := (e_gameState s5)\<lparr>score := score (e_gameState s5) + \<lfloor>deltaTime * 5\<rfloor>\<rparr>\<rparr>"
  have gs2: "e_gameState s2 = e_gameState g"
    using cull_obstacles_state[of deltaTime "length (e_obstacles g1)" g1]
    by (auto simp: s2_def r2_def g1_def)
  have gs3: "e_gameState s3 = e_gameState g"
    using cull_collectibles_state[of now deltaTime "length (e_collectibles s2)" s2] gs2
    by (auto simp: s3_def r3_def)
  have gs4: "lives (e_gameState s4) = lives (e_gameState g)"
    "isPlaying (e_gameState s4) = isPlaying (e_gameState g)"
    "gameOver (e_gameState s4) = gameOver (e_gameState g)"
    using spawn_step_enh_gameState[of deltaTime rnd s3] gs3 by (simp_all add: s4_def)
  from False have playing: "isPlaying (e_gameState g)" by simp
  have P5: "lives (e_gameState s5) \<le> lives (e_gameState g)
     \<and> (lives_ok (e_gameState g) \<longrightarrow> lives_ok (e_gameState s5)
           \<and> (\<not> gameOver (e_gameState g) \<and> gameOver (e_gameState s5) \<longrightarrow> lives (e_gameState s5) = 0))"
    using checkCollisions_enh_lives[of s4] gs4 playing
    unfolding s5_def r5_def lives_ok_def by auto
  have P6: "lives (e_gameState s6) \<le> lives (e_gameState g)
     \<and> (lives_ok (e_gameState g) \<longrightarrow> lives_ok (e_gameState s6)
           \<and> (\<not> gameOver (e_gameState g) \<and> gameOver (e_gameState s6) \<longrightarrow> lives (e_gameState s6) = 0))"
    using P5 by (simp add: s6_def lives_ok_def)
  have P2: "lives (e_gameState s2) \<le> lives (e_gameState g)
     \<and> (lives_ok (e_gameState g) \<longrightarrow> lives_ok (e_gameState s2)
           \<and> (\<not> gameOver (e_gameState g) \<and> gameOver (e_gameState s2) \<longrightarrow> lives (e_gameState s2) = 0))"
    by (simp add: gs2)
  have P3: "lives (e_gameState s3) \<le> lives (e_gameState g)
     \<and> (lives_ok (e_gameState g) \<longrightarrow> lives_ok (e_gameState s3)
           \<and> (\<not> gameOver (e_gameState g) \<and> gameOver (e_gameState s3) \<longrightarrow> lives (e_gameState s3) = 0))"
    by (simp add: gs3)
  have upd: "update deltaTime rnd now g =
      (case r2 of Inl e \<Rightarrow> Inl e
       | Inr g2 \<Rightarrow>
          (case cull_collectibles now deltaTime (length (e_collectibles g2)) g2 of
             Inl e \<Rightarrow> Inl e
           | Inr g3 \<Rightarrow>
              (case checkCollisions_enh (spawn_step_enh deltaTime rnd g3) of
                 Inl e \<Rightarrow> Inl e
               | Inr g4 \<Rightarrow>
                   Inr (g4\<lparr>e_gameState :=
                            (e_gameState g4)\<lparr>score := score (e_gameState g4) + \<lfloor>deltaTime * 5\<rfloor>\<rparr>\<rparr>))))"
    using False unfolding update_def Let_def r2_def g1_def by simp
  have "state_of (update deltaTime rnd now g) \<in> {s2, s3, s5, s6}"
  proof (cases r2)
    case (Inl es)
    then show ?thesis unfolding upd by (simp add: s2_def state_of_def)
  next
    case (Inr g2)
    then have g2: "s2 = g2" by (simp add: s2_def state_of_def)
    show ?thesis
    proof (cases r3)
      case (Inl es)
      then show ?thesis unfolding upd using Inr g2
        by (simp add: s3_def r3_def state_of_def)
    next
      case Inr3: (Inr g3)
      then have g3: "s3 = g3" by (simp add: s3_def state_of_def)
      show ?thesis
      proof (cases r5)
        case (Inl es)
        then show ?thesis unfolding upd using Inr g2 Inr3 g3
          by (simp add: s5_def r5_def s4_def r3_def state_of_def)
      next
        case Inr5: (Inr g5)
        then have "s5 = g5" by (simp add: s5_def state_of_def)
        then show ?thesis unfolding upd using Inr g2 Inr3 g3 Inr5
          by (simp add: s6_def r5_def s4_def r3_def state_of_def)
      qed
    qed
  qed
  with P2 P3 P5 P6 show ?thesis by auto
qed

lemma handle_enh_lives_ok:
  assumes "lives_ok (e_gameState g)"
  shows "lives_ok (e_gameState (state_of (handle_enh e g)))"
proof (cases e)
  case Start
  then show ?thesis
    by (simp add: state_of_def startGame_enh_def clearGameObjects_def Let_def lives_ok_def)
next
  case Pause
  with assms show ?thesis by (simp add: state_of_def pauseGame_def lives_ok_def)
next
  case Stop
  with assms stopGame_gameState[of g] show ?thesis by (simp add: state_of_def lives_ok_def)
next
  case (Input_enh c)
  with assms show ?thesis by (simp add: state_of_def)
next
  case (Update dt rnd now)
  with assms update_lives[of dt rnd now g] show ?thesis by simp
qed

lemma reachable_enh_lives_ok: "reachable_enh g \<Longrightarrow> lives_ok (e_gameState g)"
proof (induction rule: reachable_enh.induct)
  case reachable_enh_init
  show ?case by (simp add: new_EnhancedRunnerGame_def lives_ok_def)
next
  case (reachable_enh_step g e)
  then show ?case by (simp add: handle_enh_lives_ok)
qed


subsection \<open>Evaluating the example runs\<close>

lemma num_lt_distanceTo:
  "0 < r \<Longrightarrow> num_lt (distanceTo a b) r =
     (case (vec_x a, vec_x b) of
        (Some ax, Some bx) \<Rightarrow> (ax - bx)\<^sup>2 + (vec_y a - vec_y b)\<^sup>2 + (vec_z a - vec_z b)\<^sup>2 < r\<^sup>2
      | _ \<Rightarrow> False)"
proof -
  assume r: "0 < r"
  have "sqrt s < r \<longleftrightarrow> s < r\<^sup>2" for s
  proof -
    have "sqrt s < sqrt (r\<^sup>2) \<longleftrightarrow> s < r\<^sup>2" by (rule real_sqrt_less_iff)
    moreover have "sqrt (r\<^sup>2) = r" using r by simp
    ultimately show ?thesis by simp
  qed
  then show ?thesis
    by (simp add: num_lt_def distanceTo_def split: option.splits)
qed

lemmas spawn_obstacles_enh_2 =
  spawn_obstacles_enh.simps(2) [of _ _ "Suc 0", folded numeral_2_eq_2]

lemmas eval_main_core = spawn_step_def spawnObjects_def
  startGame_def init_World_def gameOver_fn_def Player_update_def fall_def new_Player_def
  num_sub_def Entity_update_def Entity_dispose_def new_Obstacle_def new_Collectible_def
  lane_x_def lanes_def array_get_def remove_at_def splice1_def scene_add_def scene_remove_def
  release_def setHealth_def takeDamage_def spawnInterval_def example_rnd_def state_of_def
  run_def Let_def num_lt_distanceTo power2_eq_square update_obstacles.simps
  update_collectibles.simps

lemmas eval_main = animate_def frame_def checkCollisions_def eval_main_core

lemmas eval_enh_core = spawn_step_enh_def spawnObjects_enh_def
  startGame_enh_def new_EnhancedRunnerGame_def clearGameObjects_def stopGame_def
  EnhancedPlayer_update_def fall_def new_EnhancedPlayer_def moveSpeed_def gravity_def groundY_def
  num_sub_def DiwaliObstacle_update_def DiwaliCollectible_update_def new_DiwaliObstacle_def
  new_DiwaliCollectible_def pick_type_def types_def getValue_def
  lane_x_def lanes_def array_get_def remove_at_def splice1_def scene_add_def scene_remove_def
  release_def example_rnd2_def state_of_def run_enh_def
  Let_def num_lt_distanceTo power2_eq_square spawn_obstacles_enh_2

lemmas eval_enh = update_def checkCollisions_enh_def eval_enh_core

lemma example_two_frames_eval:
  "example_two_frames =
     \<lparr>gameState = \<lparr>isPlaying = True, isPaused = False, score = 37, speed = 10.2, lives = 2,
                   gameOver = False\<rparr>,
      player = new_Player 0,
      obstacles = [\<lparr>mesh = 4, position = \<lparr>vec_x = Some 0, vec_y = 0.75, vec_z = -50\<rparr>,
                    velocity_z = 10.1\<rparr>],
      collectibles =
        [\<lparr>mesh = 2, position = \<lparr>vec_x = Some (-2), vec_y = 1, vec_z = 0\<rparr>, velocity_z = 10\<rparr>,
         \<lparr>mesh = 3, position = \<lparr>vec_x = Some 2, vec_y = 1, vec_z = 0\<rparr>, velocity_z = 10\<rparr>,
         \<lparr>mesh = 5, position = \<lparr>vec_x = Some (-2), vec_y = 1, vec_z = -50\<rparr>, velocity_z = 10.1\<rparr>,
         \<lparr>mesh = 6, position = \<lparr>vec_x = Some 2, vec_y = 1, vec_z = -50\<rparr>, velocity_z = 10.1\<rparr>],
      healthBar = \<lparr>maxHealth = 3, currentHealth = 2, shown = True\<rparr>,
      spawnTimer = 0, lastTime = 7500,
      surface = \<lparr>scene = [0, 2, 3, 4, 5, 6], disposed = [1], nextMesh = 7\<rparr>\<rparr>"
  by (simp add: example_two_frames_def eval_main cong: let_weak_cong)

lemma example_last_life_eval:
  "example_last_life =
     \<lparr>gameState = \<lparr>isPlaying = True, isPaused = False, score = 62, speed = 10.3, lives = 1,
                   gameOver = False\<rparr>,
      player = new_Player 0,
      obstacles = [\<lparr>mesh = 7, position = \<lparr>vec_x = Some 0, vec_y = 0.75, vec_z = -50\<rparr>,
                    velocity_z = 10.2\<rparr>],
      collectibles =
        [\<lparr>mesh = 3, position = \<lparr>vec_x = Some 2, vec_y = 1, vec_z = 0\<rparr>, velocity_z = 10\<rparr>,
         \<lparr>mesh = 5, position = \<lparr>vec_x = Some (-2), vec_y = 1, vec_z = 0.5\<rparr>, velocity_z = 10.1\<rparr>,
         \<lparr>mesh = 6, position = \<lparr>vec_x = Some 2, vec_y = 1, vec_z = 0.5\<rparr>, velocity_z = 10.1\<rparr>,
         \<lparr>mesh = 8, position = \<lparr>vec_x = Some (-2), vec_y = 1, vec_z = -50\<rparr>, velocity_z = 10.2\<rparr>,
         \<lparr>mesh = 9, position = \<lparr>vec_x = Some 2, vec_y = 1, vec_z = -50\<rparr>, velocity_z = 10.2\<rparr>],
      healthBar = \<lparr>maxHealth = 3, currentHealth = 1, shown = True\<rparr>,
      spawnTimer = 0, lastTime = 12500,
      surface = \<lparr>scene = [0, 3, 5, 6, 7, 8, 9], disposed = [1, 2, 4], nextMesh = 10\<rparr>\<rparr>"
  by (simp add: example_last_life_def example_two_frames_eval eval_main cong: let_weak_cong)

lemma example_last_life_enh_eval:
  "example_last_life_enh =
     \<lparr>e_surface = \<lparr>scene = [0, 3, 5, 6], disposed = [2, 1, 4], nextMesh = 7\<rparr>,
      e_player = new_EnhancedPlayer 0,
      e_obstacles =
        [\<lparr>mesh = 3, position = \<lparr>vec_x = Some (-2), vec_y = 0.75, vec_z = 0.5\<rparr>, velocity_z = 10.1\<rparr>,
         \<lparr>mesh = 5, position = \<lparr>vec_x = Some (-2), vec_y = 0.75, vec_z = -50\<rparr>, velocity_z = 10.2\<rparr>,
         \<lparr>mesh = 6, position = \<lparr>vec_x = Some 0, vec_y = 0.75, vec_z = -50\<rparr>, velocity_z = 10.2\<rparr>],
      e_collectibles = [],
      e_gameState = \<lparr>isPlaying = True, isPaused = False, score = 60, speed = 10.3, lives = 1,
                     gameOver = False, theme = ''diwali-night''\<rparr>,
      e_spawnTimer = 0, e_spawnInterval = 1.94\<rparr>"
  by (simp add: example_last_life_enh_def eval_enh cong: let_weak_cong)

lemma reachable_run: "reachable w \<Longrightarrow> reachable (run es w)"
  unfolding run_def
proof (induction es arbitrary: w)
  case Nil
  then show ?case by simp
next
  case (Cons e es)
  from Cons.prems have "reachable (state_of (handle e w))" by (rule reachable_step)
  from Cons.IH[OF this] show ?case by simp
qed

lemma reachable_enh_run: "reachable_enh g \<Longrightarrow> reachable_enh (run_enh es g)"
  unfolding run_enh_def
proof (induction es arbitrary: g)
  case Nil
  then show ?case by simp
next
  case (Cons e es)
  from Cons.prems have "reachable_enh (state_of (handle_enh e g))" by (rule reachable_enh_step)
  from Cons.IH[OF this] show ?case by simp
qed

lemma reachable_example_two_frames: "reachable example_two_frames"
  unfolding example_two_frames_def by (rule reachable_run) (rule reachable_init)

lemma reachable_example_last_life: "reachable example_last_life"
  unfolding example_last_life_def by (rule reachable_run) (rule reachable_example_two_frames)

lemma reachable_example_last_life_enh: "reachable_enh example_last_life_enh"
  unfolding example_last_life_enh_def by (rule reachable_enh_run) (rule reachable_enh_init)

lemma animate_example_last_life:
  "animate 17400 example_rnd example_last_life =
     Inr \<lparr>gameState = \<lparr>isPlaying = False, isPaused = False, score = 86, speed = 10.4, lives = 0,
                   gameOver = True\<rparr>,
      player = new_Player 0,
      obstacles = [\<lparr>mesh = 10, position = \<lparr>vec_x = Some 0, vec_y = 0.75, vec_z = -50\<rparr>,
                    velocity_z = 10.3\<rparr>],
      collectibles =
        [\<lparr>mesh = 5, position = \<lparr>vec_x = Some (-2), vec_y = 1, vec_z = 0.5\<rparr>, velocity_z = 10.1\<rparr>,
         \<lparr>mesh = 8, position = \<lparr>vec_x = Some (-2), vec_y = 1, vec_z = -50\<rparr>, velocity_z = 10.2\<rparr>,
         \<lparr>mesh = 9, position = \<lparr>vec_x = Some 2, vec_y = 1, vec_z = -0.02\<rparr>, velocity_z = 10.2\<rparr>,
         \<lparr>mesh = 11, position = \<lparr>vec_x = Some (-2), vec_y = 1, vec_z = -50\<rparr>, velocity_z = 10.3\<rparr>,
         \<lparr>mesh = 12, position = \<lparr>vec_x = Some 2, vec_y = 1, vec_z = -50\<rparr>, velocity_z = 10.3\<rparr>],
      healthBar = \<lparr>maxHealth = 3, currentHealth = 0, shown = False\<rparr>,
      spawnTimer = 0, lastTime = 17400,
      surface = \<lparr>scene = [0, 5, 8, 9, 10, 11, 12], disposed = [1, 2, 4, 3, 6, 7], nextMesh = 13\<rparr>\<rparr>"
  by (simp add: example_last_life_eval eval_main cong: let_weak_cong)

lemma update_example_last_life_enh:
  "update 4.9 example_rnd2 (\<lambda>i. 0) example_last_life_enh =
     Inl (TypeError,
       \<lparr>e_surface = \<lparr>scene = [0], disposed = [2, 1, 4, 3, 6, 5, 7, 8], nextMesh = 9\<rparr>,
        e_player = new_EnhancedPlayer 0,
        e_obstacles = [], e_collectibles = [],
        e_gameState = \<lparr>isPlaying = False, isPaused = False, score = 60, speed = 10.4, lives = 0,
                       gameOver = True, theme = ''diwali-night''\<rparr>,
        e_spawnTimer = 0, e_spawnInterval = 1.92\<rparr>)"
  by (simp add: example_last_life_enh_eval eval_enh cong: let_weak_cong)

subsection \<open>The lives counter over a frame\<close>

text \<open>
  Claim C1. In every reachable state of either game, a frame leaves lives no higher than
  it found them and never below 0; and when the frame takes the game from not over to
  over, lives is exactly 0 after it. For the enhanced game the state after the frame is
  the one it leaves behind also when the frame throws.
\<close>

theorem lives_never_negative:
  "(reachable w \<longrightarrow>
      lives (gameState (state_of (animate currentTime rnd w))) \<le> lives (gameState w)
      \<and> 0 \<le> lives (gameState (state_of (animate currentTime rnd w)))
      \<and> (\<not> gameOver (gameState w) \<and> gameOver (gameState (state_of (animate currentTime rnd w)))
           \<longrightarrow> lives (gameState (state_of (animate currentTime rnd w))) = 0))
   \<and> (reachable_enh g \<longrightarrow>
      lives (e_gameState (state_of (update deltaTime rnd' now g))) \<le> lives (e_gameState g)
      \<and> 0 \<le> lives (e_gameState (state_of (update deltaTime rnd' now g)))
      \<and> (\<not> gameOver (e_gameState g) \<and> gameOver (e_gameState (state_of (update deltaTime rnd' now g)))
           \<longrightarrow> lives (e_gameState (state_of (update deltaTime rnd' now g))) = 0))"
proof (intro conjI impI)
  assume r: "reachable w"
  from reachable_lives_ok[OF r] have ok: "lives_ok (gameState w)" .
  from animate_lives[of currentTime rnd w] obtain w' where
    a: "animate currentTime rnd w = Inr w'"
    and l: "lives (gameState w') \<le> lives (gameState w)"
      "lives_ok (gameState w) \<longrightarrow> lives_ok (gameState w')
           \<and> (\<not> gameOver (gameState w) \<and> gameOver (gameState w') \<longrightarrow> lives (gameState w') = 0)"
    by blast
  have s: "state_of (animate currentTime rnd w) = w'" by (simp add: a state_of_def)
  show "lives (gameState (state_of (animate currentTime rnd w))) \<le> lives (gameState w)"
    unfolding s by (rule l(1))
  show "0 \<le> lives (gameState (state_of (animate currentTime rnd w)))"
    unfolding s using l(2) ok by (simp add: lives_ok_def)
  show "lives (gameState (state_of (animate currentTime rnd w))) = 0"
    if "\<not> gameOver (gameState w) \<and> gameOver (gameState (state_of (animate currentTime rnd w)))"
    using that l(2) ok unfolding s by simp
next
  assume r: "reachable_enh g"
  from reachable_enh_lives_ok[OF r] have ok: "lives_ok (e_gameState g)" .
  note u = update_lives[of deltaTime rnd' now g]
  show "lives (e_gameState (state_of (update deltaTime rnd' now g))) \<le> lives (e_gameState g)"
    using u by simp
  show "0 \<le> lives (e_gameState (state_of (update deltaTime rnd' now g)))"
    using u ok by (simp add: lives_ok_def)
  show "lives (e_gameState (state_of (update deltaTime rnd' now g))) = 0"
    if "\<not> gameOver (e_gameState g) \<and> gameOver (e_gameState (state_of (update deltaTime rnd' now g)))"
    using that u ok by simp
qed

theorem lives_never_negative_witness:
  "reachable example_last_life \<and> lives (gameState example_last_life) = 1
   \<and> \<not> gameOver (gameState example_last_life)
   \<and> lives (gameState (state_of (animate 17400 example_rnd example_last_life))) = 0
   \<and> gameOver (gameState (state_of (animate 17400 example_rnd example_last_life)))
   \<and> reachable_enh example_last_life_enh \<and> lives (e_gameState example_last_life_enh) = 1
   \<and> \<not> gameOver (e_gameState example_last_life_enh)
   \<and> lives (e_gameState (state_of (update 4.9 example_rnd2 (\<lambda>i. 0) example_last_life_enh))) = 0
   \<and> gameOver (e_gameState (state_of (update 4.9 example_rnd2 (\<lambda>i. 0) example_last_life_enh)))"
  using lives_never_negative [of example_last_life 17400 example_rnd example_last_life_enh
          "4.9" example_rnd2 "\<lambda>i. 0"]
        reachable_example_last_life reachable_example_last_life_enh
  by (simp add: animate_example_last_life update_example_last_life_enh state_of_def)
     (simp add: example_last_life_eval example_last_life_enh_eval)

section \<open>Exceptions and the end of the scan\<close>




lemma update_example_last_life_enh_scan:
  "update 4.9 example_rnd2 (\<lambda>i. 0) example_last_life_enh =
     (case checkCollisions_enh example_fatal_scan_enh of
        Inl e \<Rightarrow> Inl e
      | Inr g4 \<Rightarrow>
          Inr (g4\<lparr>e_gameState := (e_gameState g4)\<lparr>score := score (e_gameState g4) + \<lfloor>(4.9::real) * 5\<rfloor>\<rparr>\<rparr>))"
  by (simp add: update_def example_last_life_enh_eval example_fatal_scan_enh_def eval_enh_core
        cong: let_weak_cong)


section \<open>Culling and traversal\<close>

lemma cull_obstacles_all:
  "i \<le> length (e_obstacles g) \<Longrightarrow>
     \<exists>sf. cull_obstacles deltaTime i g =
       Inr (g\<lparr>e_obstacles :=
                filter (\<lambda>ob. \<not> 10 < vec_z (position ob))
                  (map (DiwaliObstacle_update deltaTime) (take i (e_obstacles g)))
                @ drop i (e_obstacles g),
              e_surface := sf\<rparr>)"
proof (induction i arbitrary: g)
  case 0
  have "cull_obstacles deltaTime 0 g =
      Inr (g\<lparr>e_obstacles := filter (\<lambda>ob. \<not> 10 < vec_z (position ob))
                  (map (DiwaliObstacle_update deltaTime) (take 0 (e_obstacles g)))
                @ drop 0 (e_obstacles g), e_surface := e_surface g\<rparr>)" by simp
  then show ?case by (rule exI)
next
  case (Suc i)
  then have lt: "i < length (e_obstacles g)" by simp
  define obs where "obs = e_obstacles g"
  define ob where "ob = DiwaliObstacle_update deltaTime (obs ! i)"
  define g1 where "g1 = g\<lparr>e_obstacles := obs[i := ob]\<rparr>"
  have tk: "take (Suc i) obs = take i obs @ [obs ! i]"
    using lt by (simp add: obs_def take_Suc_conv_app_nth)
  show ?case
  proof (cases "10 < vec_z (position ob)")
    case True
    define g2 where "g2 = g1\<lparr>e_surface := release (mesh ob) (scene_remove (mesh ob) (e_surface g1)),
                         e_obstacles := remove_at i (e_obstacles g1)\<rparr>"
    have eq: "cull_obstacles deltaTime (Suc i) g = cull_obstacles deltaTime i g2"
      using lt True by (simp add: array_get_Some Let_def ob_def obs_def g1_def g2_def)
    have o2: "e_obstacles g2 = take i obs @ drop (Suc i) obs"
      using lt by (simp add: g2_def g1_def remove_at_def obs_def)
    have len: "i \<le> length (e_obstacles g2)" using lt by (simp add: o2 obs_def)
    from Suc.IH[OF len] obtain sf where
      r: "cull_obstacles deltaTime i g2 =
       Inr (g2\<lparr>e_obstacles :=
                filter (\<lambda>ob. \<not> 10 < vec_z (position ob))
                  (map (DiwaliObstacle_update deltaTime) (take i (e_obstacles g2)))
                @ drop i (e_obstacles g2),
              e_surface := sf\<rparr>)" by blast
    have t2: "take i (e_obstacles g2) = take i obs" "drop i (e_obstacles g2) = drop (Suc i) obs"
      using lt by (simp_all add: o2 obs_def)
    have "cull_obstacles deltaTime (Suc i) g =
       Inr (g\<lparr>e_obstacles :=
                filter (\<lambda>ob. \<not> 10 < vec_z (position ob))
                  (map (DiwaliObstacle_update deltaTime) (take (Suc i) (e_obstacles g)))
                @ drop (Suc i) (e_obstacles g),
              e_surface := sf\<rparr>)"
      unfolding eq r t2 using True
      by (simp add: obs_def[symmetric] tk ob_def[symmetric] g2_def g1_def)
    then show ?thesis by blast
  next
    case False
    have eq: "cull_obstacles deltaTime (Suc i) g = cull_obstacles deltaTime i g1"
      using lt False by (simp add: array_get_Some Let_def ob_def obs_def g1_def)
    have len: "i \<le> length (e_obstacles g1)" using lt by (simp add: g1_def obs_def)
    from Suc.IH[OF len] obtain sf where
      r: "cull_obstacles deltaTime i g1 =
       Inr (g1\<lparr>e_obstacles :=
                filter (\<lambda>ob. \<not> 10 < vec_z (position ob))
                  (map (DiwaliObstacle_update deltaTime) (take i (e_obstacles g1)))
                @ drop i (e_obstacles g1),
              e_surface := sf\<rparr>)" by blast
    have t1: "take i (e_obstacles g1) = take i obs" "drop i (e_obstacles g1) = ob # drop (Suc i) obs"
      using lt by (simp_all add: g1_def obs_def drop_update_cancel Cons_nth_drop_Suc[symmetric]
            upd_conv_take_nth_drop)
    have "cull_obstacles deltaTime (Suc i) g =
       Inr (g\<lparr>e_obstacles :=
                filter (\<lambda>ob. \<not> 10 < vec_z (position ob))
                  (map (DiwaliObstacle_update deltaTime) (take (Suc i) (e_obstacles g)))
                @ drop (Suc i) (e_obstacles g),
              e_surface := sf\<rparr>)"
      unfolding eq r t1 using False
      by (simp add: obs_def[symmetric] tk ob_def[symmetric] g1_def)
    then show ?thesis by blast
  qed
qed

text \<open>
  Claim C9 (fails in main.ts). The claim: every entity that crosses the despawn threshold
  in a frame is removed in that frame, with no entity skipped by the removal during
  traversal. In main.ts, in a state reached by a start and two frames, the next frame
  (5 s) removes the collectible at index 0 and thereby skips the one behind it: mesh 3
  is still in the collection after the frame, not moved, although the frame's update
  would have taken it from z = 0 to z = 50, past the threshold. The backward loop of the
  enhanced game updates every obstacle once and keeps exactly those not past the
  threshold.
\<close>

theorem forEach_skips_after_removal:
  "reachable example_two_frames
   \<and> collectibles example_two_frames ! 1 =
       \<lparr>mesh = 3, position = \<lparr>vec_x = Some 2, vec_y = 1, vec_z = 0\<rparr>, velocity_z = 10\<rparr>
   \<and> collectibles (state_of (animate 12500 example_rnd example_two_frames)) ! 0 =
       \<lparr>mesh = 3, position = \<lparr>vec_x = Some 2, vec_y = 1, vec_z = 0\<rparr>, velocity_z = 10\<rparr>
   \<and> vec_z (position (Entity_update ((12500 - lastTime example_two_frames) / 1000)
         \<lparr>mesh = 3, position = \<lparr>vec_x = Some 2, vec_y = 1, vec_z = 0\<rparr>, velocity_z = 10\<rparr>)) = 50
   \<and> (\<exists>sf. cull_obstacles deltaTime (length (e_obstacles g)) g =
         Inr (g\<lparr>e_obstacles :=
                  filter (\<lambda>ob. \<not> 10 < vec_z (position ob))
                    (map (DiwaliObstacle_update deltaTime) (e_obstacles g)),
                e_surface := sf\<rparr>))"
proof -
  have a: "state_of (animate 12500 example_rnd example_two_frames) = example_last_life"
    by (simp add: example_last_life_def run_def)
  have b: "collectibles example_two_frames ! 1 =
       \<lparr>mesh = 3, position = \<lparr>vec_x = Some 2, vec_y = 1, vec_z = 0\<rparr>, velocity_z = 10\<rparr>"
    by (simp add: example_two_frames_eval)
  have c: "collectibles example_last_life ! 0 =
       \<lparr>mesh = 3, position = \<lparr>vec_x = Some 2, vec_y = 1, vec_z = 0\<rparr>, velocity_z = 10\<rparr>"
    by (simp add: example_last_life_eval)
  have d: "vec_z (position (Entity_update ((12500 - lastTime example_two_frames) / 1000)
         \<lparr>mesh = 3, position = \<lparr>vec_x = Some 2, vec_y = 1, vec_z = 0\<rparr>, velocity_z = 10\<rparr>)) = 50"
    by (simp add: example_two_frames_eval Entity_update_def)
  have e: "\<exists>sf. cull_obstacles deltaTime (length (e_obstacles g)) g =
         Inr (g\<lparr>e_obstacles :=
                  filter (\<lambda>ob. \<not> 10 < vec_z (position ob))
                    (map (DiwaliObstacle_update deltaTime) (e_obstacles g)),
                e_surface := sf\<rparr>)"
    using cull_obstacles_all[of "length (e_obstacles g)" g deltaTime] by simp
  from reachable_example_two_frames b c d e show ?thesis unfolding a by (intro conjI)
qed

section \<open>The spawn timer\<close>

subsection \<open>Frames without a collision\<close>






subsection \<open>The spawn step of main.ts\<close>












subsection \<open>The spawn step of the enhanced game\<close>











subsection \<open>The order of the spawn step\<close>






end
